theory Spec2Isabelle
  imports
    Complex_Main
    "HOL-Library.AList"
    "HOL-Library.Sublist"
    "HOL-Library.Multiset"
    "HOL-Library.Char_ord"
    "HOL-Library.List_Lexorder"
begin

section \<open>Postings, decimals and the services the accumulators call\<close>

text \<open>
  Monetary values are \<^verbatim>\<open>decimal.Decimal\<close> (arbitrary precision, exact for addition,
  subtraction, negation and multiplication); they are modelled as rationals.
  A posting carries the fields the accumulators read. Its date is a \<^verbatim>\<open>time.Time\<close>;
  the type of instants is a parameter, fixed by each accumulator: the daily fold reads a
  calendar day and the time of day, the monthly folds read a calendar month and a position
  inside that month.
\<close>

type_synonym decimal = rat

record 't posting =
  Date :: 't
  Account :: string
  Commodity :: string
  Quantity :: decimal
  Amount :: decimal

text \<open>
  The packages \<^verbatim>\<open>service\<close>, \<^verbatim>\<open>utils\<close> and \<^verbatim>\<open>accounting\<close> read the database and the
  configuration. What the accumulators call from them is taken as a record of functions,
  so that every result below holds for any classification and any price table.
  \<^verbatim>\<open>GetUnitPrice\<close> stands for \<^verbatim>\<open>service.GetUnitPrice(db, commodity, date).Value\<close>.
\<close>

record 't services =
  IsInterest :: "'t posting \<Rightarrow> bool"
  IsInterestRepayment :: "'t posting \<Rightarrow> bool"
  IsStockSplit :: "'t posting \<Rightarrow> bool"
  IsCapitalGains :: "'t posting \<Rightarrow> bool"
  IsCheckingAccount :: "string \<Rightarrow> bool"
  IsCurrency :: "string \<Rightarrow> bool"
  GetMarketPrice :: "'t posting \<Rightarrow> 't \<Rightarrow> decimal"
  GetUnitPrice :: "string \<Rightarrow> 't \<Rightarrow> decimal"
  CurrentBalance :: "'t posting list \<Rightarrow> decimal"
  XIRR :: "'t posting list \<Rightarrow> decimal"

section \<open>Net worth\<close>

text \<open>
  The daily fold reads a \<^verbatim>\<open>time.Time\<close> in the configured time zone as a calendar day,
  numbered consecutively, and the wall-clock time within that day. \<^verbatim>\<open>Before\<close> orders two
  instants by their day and then by their time of day, and \<^verbatim>\<open>Equal\<close> is equality of both.
  \<^verbatim>\<open>AddDate(0, 0, 1)\<close> is the same time of day on the next calendar day, whether that day
  has 23, 24 or 25 hours: the step is a calendar day, not a number of seconds. This reading
  takes the time of day of the loop variable to exist once on every day, as the beginning
  of the day does in a zone whose clock changes happen later in the night. A posting date
  has day precision: \<open>onDay n\<close> is the beginning of day \<open>n\<close>. Days are numbered from the day
  of the zero value of \<^verbatim>\<open>time.Time\<close>, \<open>zeroTime\<close>, which is the date of a \<^verbatim>\<open>Networth\<close> that
  was never assigned.
\<close>

record daytime =
  calendarDay :: int
  timeOfDay :: nat

definition TimeBefore :: "daytime \<Rightarrow> daytime \<Rightarrow> bool" where
  "TimeBefore s t =
     (calendarDay s < calendarDay t \<or> (calendarDay s = calendarDay t \<and> timeOfDay s < timeOfDay t))"

definition AddDay :: "daytime \<Rightarrow> daytime" where
  "AddDay t = t\<lparr>calendarDay := calendarDay t + 1\<rparr>"


definition onDay :: "int \<Rightarrow> daytime" where
  "onDay n = \<lparr>calendarDay = n, timeOfDay = 0\<rparr>"

definition zeroTime :: daytime where
  "zeroTime = \<lparr>calendarDay = 0, timeOfDay = 0\<rparr>"

record Networth =
  NetworthDate :: daytime
  InvestmentAmount :: decimal
  WithdrawalAmount :: decimal
  GainAmount :: decimal
  BalanceAmount :: decimal
  BalanceUnits :: decimal
  NetInvestmentAmount :: decimal

definition zeroNetworth :: Networth where
  "zeroNetworth = \<lparr>NetworthDate = zeroTime, InvestmentAmount = 0, WithdrawalAmount = 0,
     GainAmount = 0, BalanceAmount = 0, BalanceUnits = 0, NetInvestmentAmount = 0\<rparr>"

subsection \<open>computeNetworth: the point-in-time fold\<close>

text \<open>The body of the \<^verbatim>\<open>for _, p := range postings\<close> loop, on the three running totals
  (investment, withdrawal, balance).\<close>

fun networth_posting ::
  "daytime services \<Rightarrow> daytime \<Rightarrow> decimal \<times> decimal \<times> decimal \<Rightarrow> daytime posting
    \<Rightarrow> decimal \<times> decimal \<times> decimal" where
  "networth_posting sv now (investment, withdrawal, balance) p =
     (if IsInterest sv p \<or> IsInterestRepayment sv p then
        (investment, withdrawal, balance + Amount p)
      else if IsCapitalGains sv p then
        (investment, withdrawal + (- Amount p), balance)
      else
        (let investment' =
               (if 0 < Amount p \<and> \<not> IsStockSplit sv p then investment + Amount p
                else investment);
             withdrawal' =
               (if Amount p < 0 \<and> \<not> IsStockSplit sv p then withdrawal + (- Amount p)
                else withdrawal)
         in (investment', withdrawal', balance + GetMarketPrice sv p now)))"

text \<open>\<open>now\<close> is \<^verbatim>\<open>utils.EndOfToday()\<close>.\<close>

definition computeNetworth :: "daytime services \<Rightarrow> daytime \<Rightarrow> daytime posting list \<Rightarrow> Networth" where
  "computeNetworth sv now postings =
     (if postings = [] then zeroNetworth
      else
        (case foldl (networth_posting sv now) (0, 0, 0) postings of
           (investment, withdrawal, balance) \<Rightarrow>
             (let gain = balance + withdrawal - investment;
                  netInvestment = investment - withdrawal
              in \<lparr>NetworthDate = now, InvestmentAmount = investment,
                   WithdrawalAmount = withdrawal, GainAmount = gain,
                   BalanceAmount = balance, BalanceUnits = 0,
                   NetInvestmentAmount = netInvestment\<rparr>)))"

subsection \<open>computeNetworthTimeline: the daily fold\<close>

record RunningSum =
  investment :: decimal
  withdrawal :: decimal
  balance :: decimal
  balanceUnits :: decimal

definition zeroRunningSum :: RunningSum where
  "zeroRunningSum = \<lparr>investment = 0, withdrawal = 0, balance = 0, balanceUnits = 0\<rparr>"

text \<open>
  \<^verbatim>\<open>accumulator\<close> is a Go map from commodity to \<^verbatim>\<open>RunningSum\<close>. It is modelled as an
  association list with one entry per key, in the order the keys were first written; a
  key that is absent reads as the zero \<^verbatim>\<open>RunningSum\<close>, as a Go map does. Go ranges over
  a map in an unspecified order; the totals of a day are sums of exact decimals, which do
  not depend on that order.
\<close>

type_synonym accumulator = "(string \<times> RunningSum) list"

definition lookupRunningSum :: "accumulator \<Rightarrow> string \<Rightarrow> RunningSum" where
  "lookupRunningSum accumulator c =
     (case map_of accumulator c of None \<Rightarrow> zeroRunningSum | Some rs \<Rightarrow> rs)"

text \<open>The update of \<^verbatim>\<open>rs\<close> for one posting \<open>p\<close> consumed on day \<open>start\<close>
  (the three \<^verbatim>\<open>if\<close> statements of the inner loop).\<close>

definition addPosting :: "daytime services \<Rightarrow> daytime \<Rightarrow> daytime posting \<Rightarrow> RunningSum \<Rightarrow> RunningSum" where
  "addPosting sv start p rs =
     (let isInterest = IsInterest sv p;
          isCapitalGains = IsCapitalGains sv p;
          rs1 = (if 0 < Amount p \<and> \<not> isInterest
                 then rs\<lparr>investment := investment rs + Amount p\<rparr> else rs);
          rs2 = (if Amount p < 0 \<and> \<not> isInterest
                 then rs1\<lparr>withdrawal := withdrawal rs1 + (- Amount p)\<rparr> else rs1);
          rs3 = (if \<not> isCapitalGains
                 then rs2\<lparr>balance := balance rs2 + GetMarketPrice sv p start,
                         balanceUnits := balanceUnits rs2 + Quantity p\<rparr>
                 else rs2)
      in rs3)"

text \<open>One turn of the inner loop: read the entry of the posting's commodity, update it, write
  it back.\<close>

definition accumulate :: "daytime services \<Rightarrow> daytime \<Rightarrow> daytime posting \<Rightarrow> accumulator \<Rightarrow> accumulator" where
  "accumulate sv start p accumulator =
     AList.update (Commodity p)
       (addPosting sv start p (lookupRunningSum accumulator (Commodity p))) accumulator"

text \<open>The inner loop: consume the postings at the head of the list dated on or before
  \<open>start\<close>.\<close>

fun consume ::
  "daytime services \<Rightarrow> daytime \<Rightarrow> daytime posting list \<Rightarrow> accumulator
    \<Rightarrow> daytime posting list \<times> accumulator" where
  "consume sv start [] accumulator = ([], accumulator)"
| "consume sv start (p # postings) accumulator =
     (if TimeBefore (Date p) start \<or> Date p = start
      then consume sv start postings (accumulate sv start p accumulator)
      else (p # postings, accumulator))"

text \<open>The loop over the accumulator that totals a day, on the four totals (investment,
  withdrawal, balance, balanceUnits).\<close>

fun addCommodity ::
  "daytime services \<Rightarrow> bool \<Rightarrow> daytime \<Rightarrow> decimal \<times> decimal \<times> decimal \<times> decimal
    \<Rightarrow> string \<times> RunningSum \<Rightarrow> decimal \<times> decimal \<times> decimal \<times> decimal" where
  "addCommodity sv computeBalanceUnits start (inv0, wd0, bal0, units0) (commodity, rs) =
     (let inv1 = inv0 + investment rs;
          wd1 = wd0 + withdrawal rs
      in if IsCurrency sv commodity then (inv1, wd1, bal0 + balance rs, units0)
         else
           (let units1 = (if computeBalanceUnits then units0 + balanceUnits rs else units0);
                price = GetUnitPrice sv commodity start
            in if price \<noteq> 0 then (inv1, wd1, bal0 + balanceUnits rs * price, units1)
               else (inv1, wd1, bal0 + balance rs, units1)))"

definition dayNetworth :: "daytime services \<Rightarrow> bool \<Rightarrow> daytime \<Rightarrow> accumulator \<Rightarrow> Networth" where
  "dayNetworth sv computeBalanceUnits start accumulator =
     (case foldl (addCommodity sv computeBalanceUnits start) (0, 0, 0, 0) accumulator of
        (inv0, wd0, bal0, units0) \<Rightarrow>
          (let gain = bal0 + wd0 - inv0;
               netInvestment = inv0 - wd0
           in \<lparr>NetworthDate = start, InvestmentAmount = inv0, WithdrawalAmount = wd0,
                GainAmount = gain, BalanceAmount = bal0, BalanceUnits = units0,
                NetInvestmentAmount = netInvestment\<rparr>))"

text \<open>The outer loop, from \<open>start\<close> while \<open>start\<close> is before \<open>end\<close>, stepped by
  \<^verbatim>\<open>AddDate(0, 0, 1)\<close>; the records are returned in the order they are appended. \<^verbatim>\<open>decimal.NewFromFloat(0.01)\<close> is the decimal 0.01.\<close>

function timelineLoop ::
  "daytime services \<Rightarrow> bool \<Rightarrow> daytime \<Rightarrow> daytime \<Rightarrow> daytime posting list \<Rightarrow> accumulator
    \<Rightarrow> Networth list" where
  "timelineLoop sv computeBalanceUnits end start postings accumulator =
     (if TimeBefore start end then
        (case consume sv start postings accumulator of
           (postings', accumulator') \<Rightarrow>
             (let networth = dayNetworth sv computeBalanceUnits start accumulator'
              in if postings' = [] \<and> \<bar>BalanceAmount networth\<bar> < 1 / 100 then [networth]
                 else networth #
                   timelineLoop sv computeBalanceUnits end (AddDay start) postings' accumulator'))
      else [])"
  by pat_completeness auto
termination
  by (relation "measure (\<lambda>(sv, c, end, start, ps, acc).
        nat (calendarDay end + 1 - calendarDay start))")
     (auto simp: TimeBefore_def AddDay_def)

declare timelineLoop.simps [simp del]

text \<open>\<open>end\<close> is \<^verbatim>\<open>utils.EndOfToday()\<close>.\<close>

definition computeNetworthTimeline ::
  "daytime services \<Rightarrow> daytime \<Rightarrow> daytime posting list \<Rightarrow> bool \<Rightarrow> Networth list" where
  "computeNetworthTimeline sv end postings computeBalanceUnits =
     (case postings of
        [] \<Rightarrow> []
      | p # _ \<Rightarrow> timelineLoop sv computeBalanceUnits end (Date p) postings [])"

subsection \<open>A small portfolio\<close>

text \<open>
  Ten units bought for 1000 on day 0 and sold for 1500 on day 2, with the capital gain of
  500 booked on \<^verbatim>\<open>Income:CapitalGains\<close> in the default currency. The unit price is 100
  before the sale and 150 from the day of the sale.
\<close>

definition exampleServices :: "daytime services" where
  "exampleServices =
     \<lparr>IsInterest = (\<lambda>p. False), IsInterestRepayment = (\<lambda>p. False),
      IsStockSplit = (\<lambda>p. False),
      IsCapitalGains = (\<lambda>p. prefix ''Income:CapitalGains:'' (Account p)),
      IsCheckingAccount = (\<lambda>a. a = ''Assets:Checking'' \<or> prefix ''Assets:Checking:'' a),
      IsCurrency = (\<lambda>c. c = ''INR''),
      GetMarketPrice = (\<lambda>p t. Amount p),
      GetUnitPrice = (\<lambda>c t. if c = ''NIFTY'' then (if TimeBefore t (onDay 2) then 100 else 150) else 0),
      CurrentBalance = (\<lambda>ps. sum_list (map Amount ps)),
      XIRR = (\<lambda>ps. 0)\<rparr>"

definition buyPosting :: "daytime posting" where
  "buyPosting = \<lparr>Date = onDay 0, Account = ''Assets:Equity:NIFTY'', Commodity = ''NIFTY'',
     Quantity = 10, Amount = 1000\<rparr>"

definition sellPosting :: "daytime posting" where
  "sellPosting = \<lparr>Date = onDay 2, Account = ''Assets:Equity:NIFTY'', Commodity = ''NIFTY'',
     Quantity = - 10, Amount = - 1500\<rparr>"

definition gainPosting :: "daytime posting" where
  "gainPosting = \<lparr>Date = onDay 2, Account = ''Income:CapitalGains:Equity:NIFTY'',
     Commodity = ''INR'', Quantity = - 500, Amount = - 500\<rparr>"

definition examplePostings :: "daytime posting list" where
  "examplePostings = [buyPosting, sellPosting, gainPosting]"

section \<open>Asset breakdown\<close>

text \<open>
  \<^verbatim>\<open>ComputeBreakdown\<close> of \<^verbatim>\<open>internal/server/assets/balance.go\<close>. \<^verbatim>\<open>lo.Reduce\<close> is a left
  fold and \<^verbatim>\<open>lo.Filter\<close> a filter. \<^verbatim>\<open>LatestPrice\<close> is never assigned and keeps its zero
  value. \<^verbatim>\<open>Div\<close> rounds its quotient to sixteen decimal places; the quotient is kept exact
  here.
\<close>

record AssetBreakdown =
  Group :: string
  BreakdownInvestmentAmount :: decimal
  BreakdownWithdrawalAmount :: decimal
  MarketAmount :: decimal
  BreakdownBalanceUnits :: decimal
  LatestPrice :: decimal
  BreakdownXIRR :: decimal
  BreakdownGainAmount :: decimal
  AbsoluteReturn :: decimal

definition ComputeBreakdown ::
  "'t services \<Rightarrow> 't posting list \<Rightarrow> bool \<Rightarrow> string \<Rightarrow> AssetBreakdown" where
  "ComputeBreakdown sv ps leaf groupName =
     (let investmentAmount =
            foldl (\<lambda>acc p.
                if IsCheckingAccount sv (Account p) \<or> Amount p < 0 \<or> IsInterest sv p \<or>
                   IsStockSplit sv p \<or> IsCapitalGains sv p
                then acc else acc + Amount p) 0 ps;
          withdrawalAmount =
            foldl (\<lambda>acc p.
                if \<not> IsCapitalGains sv p \<and>
                   (IsCheckingAccount sv (Account p) \<or> 0 < Amount p \<or> IsInterest sv p \<or>
                    IsStockSplit sv p)
                then acc else acc + (- Amount p)) 0 ps;
          psWithoutCapitalGains = filter (\<lambda>p. \<not> IsCapitalGains sv p) ps;
          marketAmount = CurrentBalance sv psWithoutCapitalGains;
          balanceUnits =
            (if leaf
             then foldl (\<lambda>acc p.
                    if \<not> IsCurrency sv (Commodity p) then acc + Quantity p else 0) 0 ps
             else 0);
          xirr = XIRR sv ps;
          netInvestment = investmentAmount - withdrawalAmount;
          gainAmount = marketAmount - netInvestment;
          absoluteReturn =
            (if investmentAmount \<noteq> 0 then (marketAmount - netInvestment) / investmentAmount
             else 0)
      in \<lparr>Group = groupName, BreakdownInvestmentAmount = investmentAmount,
           BreakdownWithdrawalAmount = withdrawalAmount, MarketAmount = marketAmount,
           BreakdownBalanceUnits = balanceUnits, LatestPrice = 0, BreakdownXIRR = xirr,
           BreakdownGainAmount = gainAmount, AbsoluteReturn = absoluteReturn\<rparr>)"

text \<open>
  A leaf account that still holds units: ten units bought, four sold, and the gain of the
  sale booked in the default currency on \<^verbatim>\<open>Income:CapitalGains:Equity:NIFTY\<close>.
  \<^verbatim>\<open>ComputeBreakdowns\<close> puts a capital-gains posting into the slice of its source account,
  so the three postings are the slice of the leaf \<^verbatim>\<open>Assets:Equity:NIFTY\<close>.
\<close>

definition partSalePosting :: "daytime posting" where
  "partSalePosting = \<lparr>Date = onDay 2, Account = ''Assets:Equity:NIFTY'', Commodity = ''NIFTY'',
     Quantity = - 4, Amount = - 600\<rparr>"

definition partGainPosting :: "daytime posting" where
  "partGainPosting = \<lparr>Date = onDay 2, Account = ''Income:CapitalGains:Equity:NIFTY'',
     Commodity = ''INR'', Quantity = - 200, Amount = - 200\<rparr>"

definition leafPostings :: "daytime posting list" where
  "leafPostings = [buyPosting, partSalePosting, partGainPosting]"

section \<open>Calendar months and the helpers of the monthly folds\<close>

text \<open>
  The monthly folds read a \<^verbatim>\<open>time.Time\<close> through its calendar month: \<open>month\<close> numbers
  the months consecutively (twelve times the year plus the month), which is what the key
  \<^verbatim>\<open>Format("2006-01")\<close> identifies, and \<open>offset\<close> is the time elapsed since that month
  began. \<^verbatim>\<open>BeginningOfMonth\<close> is offset 0 of the same month, and \<^verbatim>\<open>AddDate(0, 1, 0)\<close> on the
  beginning of a month is the beginning of the next one.
\<close>

record instant =
  month :: int
  offset :: nat

definition Before :: "instant \<Rightarrow> instant \<Rightarrow> bool" where
  "Before s t = (month s < month t \<or> (month s = month t \<and> offset s < offset t))"

definition MaxTime :: "instant \<Rightarrow> instant \<Rightarrow> instant" where
  "MaxTime a b = (if Before b a then a else b)"

definition BeginningOfMonth :: "instant \<Rightarrow> instant" where
  "BeginningOfMonth t = \<lparr>month = month t, offset = 0\<rparr>"

text \<open>Modelled from the spec: \<^verbatim>\<open>accounting.CostSum\<close>, which is not in the sources; the sum of
  the amounts of the postings (the spec writes \<open>forecast = \<Sigma> amounts\<close>).\<close>

definition CostSum :: "'t posting list \<Rightarrow> decimal" where
  "CostSum ps = sum_list (map Amount ps)"

text \<open>Modelled from the spec: \<^verbatim>\<open>utils.GroupByMonth\<close>, which is not in the sources; a Go map
  from the month key of the date to the postings of that month, in their order. A month
  without postings has no key.\<close>

definition GroupByMonth :: "instant posting list \<Rightarrow> int \<rightharpoonup> instant posting list" where
  "GroupByMonth ps m =
     (let g = filter (\<lambda>p. month (Date p) = m) ps in if g = [] then None else Some g)"

text \<open>Modelled from the spec: \<^verbatim>\<open>accounting.GroupByAccount\<close>, which is not in the sources; a Go
  map from account to the postings on that account. It is an association list with one
  entry per account, because \<^verbatim>\<open>popExpenses\<close> ranges over it; Go leaves the order of that
  range unspecified, and it decides nothing but the order of the field \<^verbatim>\<open>Expenses\<close>.\<close>

definition GroupByAccount :: "'t posting list \<Rightarrow> (string \<times> 't posting list) list" where
  "GroupByAccount ps =
     map (\<lambda>a. (a, filter (\<lambda>p. Account p = a) ps)) (remdups (map Account ps))"

text \<open>Modelled from the spec: \<^verbatim>\<open>utils.IsSameOrParent(account, comparison)\<close>, which is not in
  the sources; \<open>account\<close> is \<open>comparison\<close> itself or lies below it, where the prefix ends at a
  colon (the spec's prefix match at colon boundary).\<close>

definition IsSameOrParent :: "string \<Rightarrow> string \<Rightarrow> bool" where
  "IsSameOrParent account comparison =
     (account = comparison \<or> prefix (comparison @ '':'') account)"

section \<open>Budget\<close>

record AccountBudget =
  BudgetAccount :: string
  Forecast :: decimal
  Actual :: decimal
  Rollover :: decimal
  Available :: decimal
  AccountBudgetDate :: int
  Expenses :: "instant posting list"

record Budget =
  BudgetDate :: int
  Accounts :: "AccountBudget list"
  AvailableThisMonth :: decimal
  EndOfMonthBalance :: decimal
  BudgetForecast :: decimal

text \<open>
  What \<^verbatim>\<open>computeBudet\<close> reads from outside its arguments: whether
  \<^verbatim>\<open>config.GetConfig().Budget.Rollover\<close> is \<^verbatim>\<open>config.Yes\<close>, the month of \<^verbatim>\<open>utils.Now()\<close>, and
  the cost sum of the postings under \<^verbatim>\<open>Assets:Checking\<close> in the database.
\<close>

record budgetContext =
  rolloverYes :: bool
  currentMonth :: int
  checkingBalance :: decimal

text \<open>\<open>date\<close> is the beginning of the budget's month, given by the number of the month.\<close>

definition buildBudget ::
  "budgetContext \<Rightarrow> int \<Rightarrow> string \<Rightarrow> decimal \<Rightarrow> instant posting list
    \<Rightarrow> instant posting list \<Rightarrow> bool \<Rightarrow> AccountBudget" where
  "buildBudget ctx date account balance0 forecasts expenses past =
     (let forecast = CostSum forecasts;
          actual = CostSum expenses;
          rollover0 = 0;
          available0 = forecast - actual;
          available1 = (if past then 0 else available0);
          rollover = (if rolloverYes ctx then balance0 else rollover0);
          available = (if rolloverYes ctx then balance0 + (forecast - actual) else available1)
      in \<lparr>BudgetAccount = account, Forecast = forecast, Actual = actual, Rollover = rollover,
           Available = available, AccountBudgetDate = date, Expenses = expenses\<rparr>)"

text \<open>\<^verbatim>\<open>popExpenses\<close> returns the expenses it collected and the map with the collected
  accounts deleted.\<close>

fun popExpenses ::
  "string \<Rightarrow> (string \<times> instant posting list) list
    \<Rightarrow> instant posting list \<times> (string \<times> instant posting list) list" where
  "popExpenses forecastAccount [] = ([], [])"
| "popExpenses forecastAccount ((account, es) # expensesByAccount) =
     (case popExpenses forecastAccount expensesByAccount of
        (expenses, remaining) \<Rightarrow>
          if IsSameOrParent account forecastAccount then (es @ expenses, remaining)
          else (expenses, (account, es) # remaining))"

text \<open>A Go map of decimals reads an absent key as zero.\<close>

definition balanceOf :: "(string \<rightharpoonup> decimal) \<Rightarrow> string \<Rightarrow> decimal" where
  "balanceOf balances account = (case balances account of None \<Rightarrow> 0 | Some d \<Rightarrow> d)"

definition lookupPostings ::
  "(string \<times> instant posting list) list \<Rightarrow> string \<Rightarrow> instant posting list" where
  "lookupPostings byAccount account =
     (case map_of byAccount account of None \<Rightarrow> [] | Some ps \<Rightarrow> ps)"

text \<open>The loop over the forecast accounts of one month. It threads the map \<^verbatim>\<open>balance\<close> and
  the map \<^verbatim>\<open>expensesByAccount\<close>, and returns the account budgets in the order appended.\<close>

fun accountLoop ::
  "budgetContext \<Rightarrow> int \<Rightarrow> bool \<Rightarrow> (string \<times> instant posting list) list \<Rightarrow> string list
    \<Rightarrow> (string \<rightharpoonup> decimal) \<Rightarrow> (string \<times> instant posting list) list
    \<Rightarrow> AccountBudget list \<times> (string \<rightharpoonup> decimal)" where
  "accountLoop ctx date ok forecastsByAccount [] balances expensesByAccount = ([], balances)"
| "accountLoop ctx date ok forecastsByAccount (account # accounts) balances expensesByAccount =
     (let fs = lookupPostings forecastsByAccount account
      in case popExpenses account expensesByAccount of
        (es0, expensesByAccount') \<Rightarrow>
          (let es = (if \<not> ok then [] else es0);
               budget = buildBudget ctx date account (balanceOf balances account) fs es
                          (date < currentMonth ctx);
               balances' =
                 balances(account \<mapsto> (if 0 < Available budget then Available budget else 0))
           in case accountLoop ctx date ok forecastsByAccount accounts balances'
                     expensesByAccount' of
                (accountBudgets, balances'') \<Rightarrow> (budget # accountBudgets, balances'')))"

text \<open>The budget of one month, with the new \<^verbatim>\<open>balance\<close> map and the new
  \<^verbatim>\<open>availableForBudgeting\<close>.\<close>

definition monthBudget ::
  "budgetContext \<Rightarrow> (int \<rightharpoonup> instant posting list) \<Rightarrow> (int \<rightharpoonup> instant posting list)
    \<Rightarrow> string list \<Rightarrow> int \<Rightarrow> (string \<rightharpoonup> decimal) \<Rightarrow> decimal
    \<Rightarrow> Budget \<times> (string \<rightharpoonup> decimal) \<times> decimal" where
  "monthBudget ctx forecasts expenses accounts start balances availableForBudgeting =
     (let forecastsByMonth = (case forecasts start of None \<Rightarrow> [] | Some fs \<Rightarrow> fs);
          ok = (expenses start \<noteq> None);
          expensesByMonth = (case expenses start of None \<Rightarrow> [] | Some es \<Rightarrow> es);
          forecastsByAccount = GroupByAccount forecastsByMonth;
          expensesByAccount = GroupByAccount expensesByMonth
      in case accountLoop ctx start ok forecastsByAccount accounts balances expensesByAccount of
        (accountBudgets, balances') \<Rightarrow>
          (let availableThisMonth =
                 sum_list (map (\<lambda>budget. if 0 < Available budget then Available budget else 0)
                   accountBudgets);
               forecast =
                 sum_list (map (\<lambda>budget. if 0 < Forecast budget then Forecast budget else 0)
                   accountBudgets);
               availableForBudgeting' = availableForBudgeting - availableThisMonth
           in (\<lparr>BudgetDate = start, Accounts = accountBudgets,
                 AvailableThisMonth = availableThisMonth,
                 EndOfMonthBalance = availableForBudgeting', BudgetForecast = forecast\<rparr>,
               balances', availableForBudgeting')))"

text \<open>
  The loop over the months. \<open>start\<close> is the beginning of a month and \<open>end\<close> is
  \<^verbatim>\<open>EndOfMonth\<close> of the last forecast posting, so \<^verbatim>\<open>start.Before(end) || start.Equal(end)\<close>
  holds exactly when the month of \<open>start\<close> is not after the month of \<open>end\<close>; both are given
  by the number of their month. \<^verbatim>\<open>budgetsByMonth\<close> is returned as the list of its entries,
  in the order written (every key is written once).
\<close>

function budgetLoop ::
  "budgetContext \<Rightarrow> (int \<rightharpoonup> instant posting list) \<Rightarrow> (int \<rightharpoonup> instant posting list)
    \<Rightarrow> string list \<Rightarrow> int \<Rightarrow> int \<Rightarrow> (string \<rightharpoonup> decimal) \<Rightarrow> decimal
    \<Rightarrow> (int \<times> Budget) list \<times> decimal" where
  "budgetLoop ctx forecasts expenses accounts end start balances availableForBudgeting =
     (if start \<le> end then
        (case monthBudget ctx forecasts expenses accounts start balances availableForBudgeting of
           (budget, balances', availableForBudgeting') \<Rightarrow>
             (case budgetLoop ctx forecasts expenses accounts end (start + 1) balances'
                     availableForBudgeting' of
                (budgets, final) \<Rightarrow> ((start, budget) # budgets, final)))
      else ([], availableForBudgeting))"
  by pat_completeness auto
termination
  by (relation "measure (\<lambda>(ctx, fs, es, accounts, end, start, b, a). nat (end + 1 - start))")
     auto

declare budgetLoop.simps [simp del]

record budgetResult =
  budgetsByMonth :: "(int \<times> Budget) list"
  resultCheckingBalance :: decimal
  resultAvailableForBudgeting :: decimal

text \<open>\<^verbatim>\<open>lo.Uniq\<close> keeps one copy of every account and \<^verbatim>\<open>sort.Strings\<close> sorts them by bytes.\<close>

definition forecastAccounts :: "instant posting list \<Rightarrow> string list" where
  "forecastAccounts forecastPostings = sort (remdups (map Account forecastPostings))"

definition computeBudet ::
  "budgetContext \<Rightarrow> instant posting list \<Rightarrow> instant posting list \<Rightarrow> budgetResult" where
  "computeBudet ctx forecastPostings expensesPostings =
     (let availableForBudgeting = checkingBalance ctx;
          forecasts = GroupByMonth forecastPostings;
          expenses = GroupByMonth expensesPostings;
          accounts = forecastAccounts forecastPostings
      in if forecastPostings \<noteq> [] then
           (case budgetLoop ctx forecasts expenses accounts
                   (month (Date (last forecastPostings)))
                   (month (Date (hd forecastPostings))) Map.empty availableForBudgeting of
              (budgets, final) \<Rightarrow>
                \<lparr>budgetsByMonth = budgets, resultCheckingBalance = checkingBalance ctx,
                  resultAvailableForBudgeting = final\<rparr>)
         else \<lparr>budgetsByMonth = [], resultCheckingBalance = checkingBalance ctx,
                resultAvailableForBudgeting = availableForBudgeting\<rparr>)"

subsection \<open>Two months of a food budget\<close>

text \<open>
  January (month 0) and February (month 1), with a forecast of 10000 for \<^verbatim>\<open>Expenses:Food\<close>
  in each; 8000 were spent in January and 12000 in February.
\<close>

definition foodForecasts :: "instant posting list" where
  "foodForecasts =
     [\<lparr>Date = \<lparr>month = 0, offset = 0\<rparr>, Account = ''Expenses:Food'', Commodity = ''INR'',
        Quantity = 10000, Amount = 10000\<rparr>,
      \<lparr>Date = \<lparr>month = 1, offset = 0\<rparr>, Account = ''Expenses:Food'', Commodity = ''INR'',
        Quantity = 10000, Amount = 10000\<rparr>]"

definition foodExpenses :: "instant posting list" where
  "foodExpenses =
     [\<lparr>Date = \<lparr>month = 0, offset = 5\<rparr>, Account = ''Expenses:Food'', Commodity = ''INR'',
        Quantity = 8000, Amount = 8000\<rparr>,
      \<lparr>Date = \<lparr>month = 1, offset = 7\<rparr>, Account = ''Expenses:Food'', Commodity = ''INR'',
        Quantity = 12000, Amount = 12000\<rparr>]"

definition rolloverContext :: budgetContext where
  "rolloverContext = \<lparr>rolloverYes = True, currentMonth = 1, checkingBalance = 50000\<rparr>"

text \<open>A forecast for \<^verbatim>\<open>Expenses:Food\<close> and one for \<^verbatim>\<open>Expenses:Food:Groceries\<close> in the same
  month, and one expense of 100 on \<^verbatim>\<open>Expenses:Food:Groceries\<close>.\<close>

definition nestedForecasts :: "instant posting list" where
  "nestedForecasts =
     [\<lparr>Date = \<lparr>month = 0, offset = 0\<rparr>, Account = ''Expenses:Food:Groceries'',
        Commodity = ''INR'', Quantity = 300, Amount = 300\<rparr>,
      \<lparr>Date = \<lparr>month = 0, offset = 0\<rparr>, Account = ''Expenses:Food'', Commodity = ''INR'',
        Quantity = 500, Amount = 500\<rparr>]"

definition groceryExpense :: "instant posting" where
  "groceryExpense = \<lparr>Date = \<lparr>month = 0, offset = 3\<rparr>, Account = ''Expenses:Food:Groceries'',
     Commodity = ''INR'', Quantity = 100, Amount = 100\<rparr>"

section \<open>Sheet language: environment, queries and the evaluation of a sheet\<close>

text \<open>
  The values of the sheet language (\<^verbatim>\<open>BigNumber\<close>, \<^verbatim>\<open>Query\<close>, functions, strings) are a type
  parameter \<open>'v\<close>, postings a type parameter \<open>'p\<close>. A JavaScript exception is an error value:
  a function that can throw returns \<open>Inl message\<close> for \<^verbatim>\<open>throw new Error(message)\<close>.
  An object that is mutated in place is returned updated. A method carries the name of its
  class: \<open>Environment_extend\<close> is \<^verbatim>\<open>Environment.extend\<close>, \<open>Query_resolve\<close> is
  \<^verbatim>\<open>Query.resolve\<close>, \<open>SheetAST_evaluate\<close> is \<^verbatim>\<open>SheetAST.evaluate\<close>.
\<close>

definition STACK_LIMIT :: nat where
  "STACK_LIMIT = 1000"

text \<open>\<^verbatim>\<open>scope\<close> is a JavaScript object used as a dictionary. The field \<^verbatim>\<open>postings\<close> has the
  declared type \<^verbatim>\<open>Posting[]\<close>; the constructor leaves it to the caller to assign.\<close>

record ('v, 'p) Environment =
  scope :: "string \<rightharpoonup> 'v"
  depth :: nat
  postings :: "'p list"

text \<open>\<^verbatim>\<open>new Environment()\<close>, with the postings the caller assigns to it.\<close>

definition newEnvironment :: "'p list \<Rightarrow> ('v, 'p) Environment" where
  "newEnvironment ps = \<lparr>scope = Map.empty, depth = 0, postings = ps\<rparr>"

definition Environment_clone :: "('v, 'p) Environment \<Rightarrow> ('v, 'p) Environment" where
  "Environment_clone this = \<lparr>scope = scope this, depth = depth this, postings = postings this\<rparr>"

text \<open>\<^verbatim>\<open>extend\<close> builds the new environment, with its depth already incremented, and then
  tests the depth of the receiver. \<^verbatim>\<open>{ ...this.scope, ...scope }\<close> lets the entries of the
  argument override those of the receiver.\<close>

definition Environment_extend ::
  "('v, 'p) Environment \<Rightarrow> (string \<rightharpoonup> 'v) \<Rightarrow> string + ('v, 'p) Environment" where
  "Environment_extend this scope' =
     (let env = \<lparr>scope = Map.empty, depth = depth this + 1, postings = postings this\<rparr>
      in if STACK_LIMIT < depth this then Inl ''Call stack overflow''
         else Inr (env\<lparr>scope := scope this ++ scope'\<rparr>))"

text \<open>A chain of nested \<^verbatim>\<open>extend\<close> calls, each on the environment the previous one returned,
  as nested function calls of a sheet make them; the chain ends at the first call that
  throws.\<close>

fun extendChain ::
  "('v, 'p) Environment \<Rightarrow> (string \<rightharpoonup> 'v) list \<Rightarrow> string + ('v, 'p) Environment" where
  "extendChain env [] = Inr env"
| "extendChain env (s # ss) =
     (case Environment_extend env s of Inl message \<Rightarrow> Inl message | Inr env' \<Rightarrow> extendChain env' ss)"

text \<open>
  The function value that \<^verbatim>\<open>FunctionDefinitionAST.evaluate\<close> stores: it extends the
  environment of the call, binds the arguments to the parameters and evaluates the body
  there. The evaluation of the body is a parameter. \<^verbatim>\<open>this.parameters[i]\<close> beyond the last
  parameter is \<^verbatim>\<open>undefined\<close>, which as a key of an object is the string \<^verbatim>\<open>"undefined"\<close>.
\<close>

fun bindArguments ::
  "string list \<Rightarrow> nat \<Rightarrow> 'v list \<Rightarrow> (string \<rightharpoonup> 'v) \<Rightarrow> (string \<rightharpoonup> 'v)" where
  "bindArguments parameters i [] sc = sc"
| "bindArguments parameters i (a # args) sc =
     bindArguments parameters (i + 1) args
       (sc((if i < length parameters then parameters ! i else ''undefined'') \<mapsto> a))"

definition callFunction ::
  "string list \<Rightarrow> (('v, 'p) Environment \<Rightarrow> string + 'v) \<Rightarrow> ('v, 'p) Environment \<Rightarrow> 'v list
    \<Rightarrow> string + 'v" where
  "callFunction parameters body env args =
     (case Environment_extend env Map.empty of
        Inl message \<Rightarrow> Inl message
      | Inr newEnv \<Rightarrow> body (newEnv\<lparr>scope := bindArguments parameters 0 args (scope newEnv)\<rparr>))"

subsection \<open>Query\<close>

text \<open>
  A transaction as the predicates of the search language see it; of its fields only
  \<^verbatim>\<open>postings\<close> is read here. \<^verbatim>\<open>asTransaction\<close> (from \<^verbatim>\<open>$lib/utils\<close>) is not in the sources
  and is a parameter. \<^verbatim>\<open>t.postings[0]\<close> on an empty array is \<^verbatim>\<open>undefined\<close>, here \<open>None\<close>.
  \<^verbatim>\<open>result\<close> is \<^verbatim>\<open>null\<close> (\<open>None\<close>) until the first \<^verbatim>\<open>resolve\<close>.
\<close>

record 'p Transaction =
  transactionPostings :: "'p list"

record 'p Query =
  predicate :: "'p Transaction \<Rightarrow> bool"
  result :: "'p option list option"

definition newQuery :: "('p Transaction \<Rightarrow> bool) \<Rightarrow> 'p Query" where
  "newQuery p = \<lparr>predicate = p, result = None\<rparr>"

definition firstPosting :: "'p Transaction \<Rightarrow> 'p option" where
  "firstPosting t = (case transactionPostings t of [] \<Rightarrow> None | p # _ \<Rightarrow> Some p)"

text \<open>\<^verbatim>\<open>resolve\<close> returns the postings and the query object as the call leaves it.\<close>

definition Query_resolve ::
  "('p \<Rightarrow> 'p Transaction) \<Rightarrow> 'p Query \<Rightarrow> ('v, 'p) Environment \<Rightarrow> 'p option list \<times> 'p Query" where
  "Query_resolve asTransaction this env =
     (case result this of
        None \<Rightarrow>
          (let r = map firstPosting (filter (predicate this) (map asTransaction (postings env)))
           in (r, this\<lparr>result := Some r\<rparr>))
      | Some r \<Rightarrow> (r, this))"

definition query_and :: "'p Query \<Rightarrow> 'p Query \<Rightarrow> 'p Query" where
  "query_and this query = newQuery (\<lambda>t. predicate this t \<and> predicate query t)"

definition query_or :: "'p Query \<Rightarrow> 'p Query \<Rightarrow> 'p Query" where
  "query_or this query = newQuery (\<lambda>t. predicate this t \<or> predicate query t)"

subsection \<open>Lines and sheets\<close>

text \<open>
  A line holds its number, the kind of its child node and the child itself. The child's
  \<^verbatim>\<open>evaluate\<close> is a function of the environment that throws or returns a value (\<open>None\<close> for
  \<^verbatim>\<open>null\<close>) and the environment as it leaves it (an assignment or a function definition
  writes to the scope). \<open>render\<close> stands for the rendering of a value: \<^verbatim>\<open>formatCurrency\<close> of a
  \<^verbatim>\<open>BigNumber\<close>, \<^verbatim>\<open>toString()\<close> otherwise.
\<close>

datatype lineKind = Expression | Assignment | FunctionDefinition | Header

record ('v, 'p) LineAST =
  lineNumber :: nat
  valueId :: lineKind
  valueEvaluate :: "('v, 'p) Environment \<Rightarrow> string + 'v option \<times> ('v, 'p) Environment"

record SheetLineResult =
  line :: nat
  error :: bool
  result_text :: string
  align :: "string option"
  bold :: "bool option"

definition resultObject :: "nat \<Rightarrow> bool \<Rightarrow> string \<Rightarrow> SheetLineResult" where
  "resultObject n e r = \<lparr>line = n, error = e, result_text = r, align = None, bold = None\<rparr>"

text \<open>\<^verbatim>\<open>LineAST.evaluate\<close>; the line number and the error flag of the result are filled in by
  the sheet. \<^verbatim>\<open>value?.toString() || ""\<close> is the empty string for \<^verbatim>\<open>null\<close>.\<close>

definition LineAST_evaluate ::
  "('v \<Rightarrow> string) \<Rightarrow> ('v, 'p) LineAST \<Rightarrow> ('v, 'p) Environment
    \<Rightarrow> string + SheetLineResult \<times> ('v, 'p) Environment" where
  "LineAST_evaluate render l env =
     (case valueEvaluate l env of
        Inl message \<Rightarrow> Inl message
      | Inr (v, env') \<Rightarrow>
          (let text = (case v of None \<Rightarrow> [] | Some x \<Rightarrow> render x)
           in Inr (case valueId l of
                Assignment \<Rightarrow> resultObject (lineNumber l) False text
              | Expression \<Rightarrow> resultObject (lineNumber l) False text
              | FunctionDefinition \<Rightarrow> resultObject (lineNumber l) False []
              | Header \<Rightarrow> (resultObject (lineNumber l) False text)
                            \<lparr>align := Some ''left'', bold := Some True\<rparr>,
              env')))"

text \<open>The inner \<^verbatim>\<open>while\<close> loop of \<^verbatim>\<open>SheetAST.evaluate\<close>: empty results for the lines that
  have no \<^verbatim>\<open>LineAST\<close>.\<close>

function fillGap ::
  "nat \<Rightarrow> SheetLineResult list \<Rightarrow> nat \<Rightarrow> SheetLineResult list \<times> nat" where
  "fillGap n results lastLineNumber =
     (if lastLineNumber + 1 < n
      then fillGap n (results @ [resultObject (lastLineNumber + 1) False []])
             (lastLineNumber + 1)
      else (results, lastLineNumber))"
  by pat_completeness auto
termination
  by (relation "measure (\<lambda>(n, results, lastLineNumber). n - lastLineNumber)") auto

declare fillGap.simps [simp del]

text \<open>The \<^verbatim>\<open>for\<close> loop of \<^verbatim>\<open>SheetAST.evaluate\<close>, on the state (results, last line number,
  environment); \<^verbatim>\<open>break\<close> returns the state as it is.\<close>

fun sheetLoop ::
  "('v \<Rightarrow> string) \<Rightarrow> ('v, 'p) LineAST list \<Rightarrow> ('v, 'p) Environment \<Rightarrow> SheetLineResult list
    \<Rightarrow> nat \<Rightarrow> SheetLineResult list \<times> nat \<times> ('v, 'p) Environment" where
  "sheetLoop render [] env results lastLineNumber = (results, lastLineNumber, env)"
| "sheetLoop render (l # ls) env results lastLineNumber =
     (case fillGap (lineNumber l) results lastLineNumber of
        (results1, last1) \<Rightarrow>
          (case LineAST_evaluate render l env of
             Inr (object, env') \<Rightarrow>
               sheetLoop render ls env' (results1 @ [object]) (last1 + 1)
           | Inl message \<Rightarrow>
               (results1 @ [resultObject (lineNumber l) True message], last1, env)))"

definition SheetAST_evaluate ::
  "('v \<Rightarrow> string) \<Rightarrow> ('v, 'p) LineAST list \<Rightarrow> ('v, 'p) Environment \<Rightarrow> SheetLineResult list" where
  "SheetAST_evaluate render ls env = fst (sheetLoop render ls env [] 0)"

subsection \<open>A sheet of three lines\<close>

text \<open>Line 1 assigns 5 to \<^verbatim>\<open>x\<close>, line 3 reads the undefined variable \<^verbatim>\<open>g\<close>, line 4 would
  assign 7 to \<^verbatim>\<open>x\<close>. Values are integers.\<close>

definition assignLine :: "nat \<Rightarrow> string \<Rightarrow> int \<Rightarrow> (int, 'p) LineAST" where
  "assignLine n x v =
     \<lparr>lineNumber = n, valueId = Assignment,
      valueEvaluate = (\<lambda>env. Inr (Some v, env\<lparr>scope := (scope env)(x \<mapsto> v)\<rparr>))\<rparr>"

definition identifierLine :: "nat \<Rightarrow> string \<Rightarrow> (int, 'p) LineAST" where
  "identifierLine n x =
     \<lparr>lineNumber = n, valueId = Expression,
      valueEvaluate = (\<lambda>env. case scope env x of
          None \<Rightarrow> Inl (''Undefined variable '' @ x)
        | Some v \<Rightarrow> Inr (Some v, env))\<rparr>"

definition showInt :: "int \<Rightarrow> string" where
  "showInt v = (if v = 5 then ''5'' else if v = 7 then ''7'' else ''?'')"

definition exampleSheet :: "(int, unit) LineAST list" where
  "exampleSheet = [assignLine 1 ''x'' 5, identifierLine 3 ''g'', assignLine 4 ''x'' 7]"

subsection \<open>Environments at the stack limit, and a query\<close>

definition emptyScope :: "string \<rightharpoonup> int" where
  "emptyScope = Map.empty"

definition limitEnvironment :: "(int, unit) Environment" where
  "limitEnvironment = \<lparr>scope = emptyScope, depth = 1000, postings = []\<rparr>"

definition overLimitEnvironment :: "(int, unit) Environment" where
  "overLimitEnvironment = \<lparr>scope = emptyScope, depth = 1001, postings = []\<rparr>"

text \<open>Postings are numbers here; each posting is the only posting of its transaction, and the
  query selects the transactions whose first posting is even.\<close>

definition singleTransaction :: "nat \<Rightarrow> nat Transaction" where
  "singleTransaction p = \<lparr>transactionPostings = [p]\<rparr>"

definition evenQuery :: "nat Query" where
  "evenQuery = newQuery (\<lambda>t. case firstPosting t of None \<Rightarrow> False | Some p \<Rightarrow> even p)"

definition numbersEnvironment :: "(int, nat) Environment" where
  "numbersEnvironment = \<lparr>scope = emptyScope, depth = 0, postings = [1, 2, 3, 4]\<rparr>"

definition otherEnvironment :: "(int, nat) Environment" where
  "otherEnvironment = \<lparr>scope = emptyScope, depth = 0, postings = [6, 8]\<rparr>"

section \<open>Cash flow\<close>

subsection \<open>The query builder\<close>

text \<open>
  Modelled from the spec: the package \<^verbatim>\<open>query\<close>, which is not in the sources. A query is the
  posting table, in its canonical order, with the conjunction of the filter clauses
  accumulated so far; \<^verbatim>\<open>All()\<close> materializes the postings that satisfy them. Every
  operation returns a new query, so \<^verbatim>\<open>Clone()\<close> is the identity. \<^verbatim>\<open>Like\<close> keeps the accounts
  that match one of the patterns, \<^verbatim>\<open>%\<close> matching any suffix; \<^verbatim>\<open>AccountPrefix\<close> and
  \<^verbatim>\<open>NotAccountPrefix\<close> include and exclude a prefix at a colon boundary.
\<close>

record postingQuery =
  table :: "instant posting list"
  keep :: "instant posting \<Rightarrow> bool"

definition Init :: "instant posting list \<Rightarrow> postingQuery" where
  "Init db = \<lparr>table = db, keep = (\<lambda>p. True)\<rparr>"

definition Clone :: "postingQuery \<Rightarrow> postingQuery" where
  "Clone q = q"

definition query_All :: "postingQuery \<Rightarrow> instant posting list" where
  "query_All q = filter (keep q) (table q)"

definition restrict :: "(instant posting \<Rightarrow> bool) \<Rightarrow> postingQuery \<Rightarrow> postingQuery" where
  "restrict c q = q\<lparr>keep := (\<lambda>p. keep q p \<and> c p)\<rparr>"

fun likeMatch :: "string \<Rightarrow> string \<Rightarrow> bool" where
  "likeMatch [] a = (a = [])"
| "likeMatch (c # cs) a =
     (if c = CHR ''%'' then list_ex (likeMatch cs) (suffixes a)
      else (case a of [] \<Rightarrow> False | x # xs \<Rightarrow> x = c \<and> likeMatch cs xs))"

definition Like :: "string list \<Rightarrow> postingQuery \<Rightarrow> postingQuery" where
  "Like patterns = restrict (\<lambda>p. list_ex (\<lambda>pattern. likeMatch pattern (Account p)) patterns)"

definition AccountPrefix :: "string \<Rightarrow> postingQuery \<Rightarrow> postingQuery" where
  "AccountPrefix a = restrict (\<lambda>p. IsSameOrParent (Account p) a)"

definition NotAccountPrefix :: "string \<Rightarrow> postingQuery \<Rightarrow> postingQuery" where
  "NotAccountPrefix a = restrict (\<lambda>p. \<not> IsSameOrParent (Account p) a)"

text \<open>
  Modelled from the spec: the date-window filters \<^verbatim>\<open>LastNMonths(n)\<close> and
  \<^verbatim>\<open>BeforeNMonths(n)\<close>, which are not in the sources. The clock gives
  \<^verbatim>\<open>utils.EndOfToday()\<close> and, for every \<open>n\<close>, the instant at which the window of the last
  \<open>n\<close> months starts, \<open>windowStart n\<close>. \<^verbatim>\<open>LastNMonths(n)\<close> keeps the postings dated in the
  window, that is not before its start, and \<^verbatim>\<open>BeforeNMonths(n)\<close> the postings dated before
  the window start (the spec seeds the balance of the three-month window with the checking
  balance before the window start). So the two filters split the postings at one instant.
\<close>

record clock =
  EndOfToday :: instant
  windowStart :: "nat \<Rightarrow> instant"



subsection \<open>computeCashFlow\<close>

record CashFlow =
  CashFlowDate :: int
  Income :: decimal
  CashFlowExpenses :: decimal
  Liabilities :: decimal
  Investment :: decimal
  Tax :: decimal
  Checking :: decimal
  Balance :: decimal

text \<open>The six maps from month to postings that \<^verbatim>\<open>computeCashFlow\<close> builds before its loop.\<close>

record monthGroups =
  expensesGroup :: "int \<rightharpoonup> instant posting list"
  incomesGroup :: "int \<rightharpoonup> instant posting list"
  liabilitiesGroup :: "int \<rightharpoonup> instant posting list"
  investmentsGroup :: "int \<rightharpoonup> instant posting list"
  taxesGroup :: "int \<rightharpoonup> instant posting list"
  checkingsGroup :: "int \<rightharpoonup> instant posting list"

text \<open>A field of the record of month \<open>key\<close>: the cost sum of the group when the key is
  present, the zero value otherwise.\<close>

definition groupSum :: "(int \<rightharpoonup> instant posting list) \<Rightarrow> int \<Rightarrow> decimal" where
  "groupSum g key = (case g key of None \<Rightarrow> 0 | Some ps \<Rightarrow> CostSum ps)"

text \<open>The body of the loop for the month \<open>start\<close>: the record, with the new running balance
  in its field \<^verbatim>\<open>Balance\<close>.\<close>

definition monthCashFlow :: "monthGroups \<Rightarrow> int \<Rightarrow> decimal \<Rightarrow> CashFlow" where
  "monthCashFlow g start balance0 =
     \<lparr>CashFlowDate = start,
      Income = - groupSum (incomesGroup g) start,
      CashFlowExpenses = groupSum (expensesGroup g) start,
      Liabilities = - groupSum (liabilitiesGroup g) start,
      Investment = groupSum (investmentsGroup g) start,
      Tax = groupSum (taxesGroup g) start,
      Checking = groupSum (checkingsGroup g) start,
      Balance = balance0 + groupSum (checkingsGroup g) start\<rparr>"

text \<open>The loop over the months: \<open>start\<close> is the beginning of the month with that number, and
  the loop runs while it is before \<open>end\<close>.\<close>

function cashFlowLoop :: "monthGroups \<Rightarrow> instant \<Rightarrow> int \<Rightarrow> decimal \<Rightarrow> CashFlow list" where
  "cashFlowLoop g end start balance0 =
     (if Before \<lparr>month = start, offset = 0\<rparr> end then
        (let cashFlow = monthCashFlow g start balance0
         in cashFlow # cashFlowLoop g end (start + 1) (Balance cashFlow))
      else [])"
  by pat_completeness auto
termination
  by (relation "measure (\<lambda>(g, end, start, b). nat (month end + 1 - start))")
     (auto simp: Before_def)

declare cashFlowLoop.simps [simp del]

definition computeCashFlow :: "clock \<Rightarrow> postingQuery \<Rightarrow> decimal \<Rightarrow> CashFlow list" where
  "computeCashFlow ck q balance0 =
     (let g = \<lparr>expensesGroup = GroupByMonth
                  (query_All (NotAccountPrefix ''Expenses:Tax'' (Like [''Expenses:%''] (Clone q)))),
               incomesGroup = GroupByMonth (query_All (Like [''Income:%''] (Clone q))),
               liabilitiesGroup = GroupByMonth (query_All (Like [''Liabilities:%''] (Clone q))),
               investmentsGroup = GroupByMonth
                  (query_All (NotAccountPrefix ''Assets:Checking'' (Like [''Assets:%''] (Clone q)))),
               taxesGroup = GroupByMonth (query_All (AccountPrefix ''Expenses:Tax'' (Clone q))),
               checkingsGroup =
                  GroupByMonth (query_All (AccountPrefix ''Assets:Checking'' (Clone q)))\<rparr>;
          ps = query_All (Clone q)
      in if ps = [] then []
         else cashFlowLoop g (MaxTime (EndOfToday ck) (Date (last ps)))
                (month (BeginningOfMonth (Date (hd ps)))) balance0)"

definition GetCashFlow :: "clock \<Rightarrow> instant posting list \<Rightarrow> CashFlow list" where
  "GetCashFlow ck db = computeCashFlow ck (Init db) 0"


subsection \<open>A ledger of two months\<close>




section \<open>Properties of the net-worth folds\<close>

subsection \<open>The loops, unfolded\<close>



lemma timelineLoop_Nil:
  "(timelineLoop sv c end start ps acc = []) = (\<not> TimeBefore start end)"
  by (subst timelineLoop.simps) (auto simp: Let_def split: prod.splits)

lemma timelineLoop_unfold:
  assumes "TimeBefore start end" and "consume sv start ps acc = (ps', acc')"
  shows "timelineLoop sv c end start ps acc =
     dayNetworth sv c start acc' #
       (if ps' = [] \<and> \<bar>BalanceAmount (dayNetworth sv c start acc')\<bar> < 1 / 100 then []
        else timelineLoop sv c end (AddDay start) ps' acc')"
  using assms by (subst timelineLoop.simps) (simp add: Let_def)




lemma dayNetworth_identities:
  "NetInvestmentAmount (dayNetworth sv c start acc) =
     InvestmentAmount (dayNetworth sv c start acc) - WithdrawalAmount (dayNetworth sv c start acc)
   \<and> GainAmount (dayNetworth sv c start acc) =
     BalanceAmount (dayNetworth sv c start acc) + WithdrawalAmount (dayNetworth sv c start acc)
       - InvestmentAmount (dayNetworth sv c start acc)"
  by (simp add: dayNetworth_def Let_def split: prod.splits)

lemma timelineLoop_identities:
  "n \<in> set (timelineLoop sv c end start ps acc) \<Longrightarrow>
     NetInvestmentAmount n = InvestmentAmount n - WithdrawalAmount n \<and>
     GainAmount n = BalanceAmount n + WithdrawalAmount n - InvestmentAmount n"
proof (induction sv c "end" start ps acc rule: timelineLoop.induct)
  case (1 sv c "end" start ps acc)
  show ?case
  proof (cases "TimeBefore start end")
    case False
    then have "timelineLoop sv c end start ps acc = []"
      by (simp add: timelineLoop_Nil)
    with "1.prems" show ?thesis by simp
  next
    case True
    obtain ps' acc' where cons: "consume sv start ps acc = (ps', acc')"
      by (cases "consume sv start ps acc")
    let ?nw = "dayNetworth sv c start acc'"
    let ?stop = "ps' = [] \<and> \<bar>BalanceAmount ?nw\<bar> < 1 / 100"
    note R = timelineLoop_unfold[OF True cons, of c]
    show ?thesis
    proof (cases ?stop)
      case stop: True
      have "timelineLoop sv c end start ps acc = [?nw]"
        using R unfolding if_P[OF stop] .
      with "1.prems" have "n = ?nw" by simp
      then show ?thesis by (simp only: dayNetworth_identities)
    next
      case go: False
      have "timelineLoop sv c end start ps acc =
          ?nw # timelineLoop sv c end (AddDay start) ps' acc'"
        using R unfolding if_not_P[OF go] .
      with "1.prems"
      have "n = ?nw \<or> n \<in> set (timelineLoop sv c end (AddDay start) ps' acc')"
        by simp
      then show ?thesis
      proof
        assume "n = ?nw"
        then show ?thesis by (simp only: dayNetworth_identities)
      next
        assume "n \<in> set (timelineLoop sv c end (AddDay start) ps' acc')"
        with "1.IH"[OF True cons[symmetric] refl] go show ?thesis by blast
      qed
    qed
  qed
qed

lemma computeNetworth_identities:
  "NetInvestmentAmount (computeNetworth sv now ps) =
     InvestmentAmount (computeNetworth sv now ps) - WithdrawalAmount (computeNetworth sv now ps)
   \<and> GainAmount (computeNetworth sv now ps) =
     BalanceAmount (computeNetworth sv now ps) + WithdrawalAmount (computeNetworth sv now ps)
       - InvestmentAmount (computeNetworth sv now ps)"
  by (simp add: computeNetworth_def zeroNetworth_def Let_def split: prod.splits)

lemma exampleTimeline:
  "computeNetworthTimeline exampleServices (onDay 10) examplePostings True =
     [\<lparr>NetworthDate = onDay 0, InvestmentAmount = 1000, WithdrawalAmount = 0, GainAmount = 0,
         BalanceAmount = 1000, BalanceUnits = 10, NetInvestmentAmount = 1000\<rparr>,
      \<lparr>NetworthDate = onDay 1, InvestmentAmount = 1000, WithdrawalAmount = 0, GainAmount = 0,
         BalanceAmount = 1000, BalanceUnits = 10, NetInvestmentAmount = 1000\<rparr>,
      \<lparr>NetworthDate = onDay 2, InvestmentAmount = 1000, WithdrawalAmount = 2000,
         GainAmount = 1000, BalanceAmount = 0, BalanceUnits = 0,
         NetInvestmentAmount = - 1000\<rparr>]"
  by (simp add: computeNetworthTimeline_def timelineLoop.simps dayNetworth_def accumulate_def
      addPosting_def lookupRunningSum_def zeroRunningSum_def exampleServices_def
      examplePostings_def buyPosting_def sellPosting_def gainPosting_def TimeBefore_def
      AddDay_def onDay_def Let_def)

subsection \<open>The identities of a net-worth record\<close>

text \<open>
  Claim C1. Whatever the postings, the classification and the prices, every record of the
  daily timeline (\<open>computeNetworthTimeline\<close>) and the record of the point-in-time
  computation (\<open>computeNetworth\<close>) satisfy
  netInvestment = investment - withdrawal and gain = balance + withdrawal - investment,
  on the record's own fields. The record of an empty posting list is all zero.
\<close>

theorem networth_record_identities:
  "\<forall>n \<in> insert (computeNetworth sv now input)
          (set (computeNetworthTimeline sv now input computeBalanceUnits)).
     NetInvestmentAmount n = InvestmentAmount n - WithdrawalAmount n \<and>
     GainAmount n = BalanceAmount n + WithdrawalAmount n - InvestmentAmount n"
proof
  fix n
  assume "n \<in> insert (computeNetworth sv now input)
          (set (computeNetworthTimeline sv now input computeBalanceUnits))"
  then consider "n = computeNetworth sv now input"
    | "n \<in> set (computeNetworthTimeline sv now input computeBalanceUnits)"
    by blast
  then show "NetInvestmentAmount n = InvestmentAmount n - WithdrawalAmount n \<and>
     GainAmount n = BalanceAmount n + WithdrawalAmount n - InvestmentAmount n"
  proof cases
    case 1
    then show ?thesis by (simp only: computeNetworth_identities)
  next
    case 2
    then show ?thesis
      by (cases input) (auto simp: computeNetworthTimeline_def dest: timelineLoop_identities)
  qed
qed

theorem networth_record_identities_witness:
  "length (computeNetworthTimeline exampleServices (onDay 10) examplePostings True) = 3 \<and>
   list_all (\<lambda>n. NetInvestmentAmount n = InvestmentAmount n - WithdrawalAmount n \<and>
                  GainAmount n = BalanceAmount n + WithdrawalAmount n - InvestmentAmount n)
     (computeNetworth exampleServices (onDay 10) examplePostings #
      computeNetworthTimeline exampleServices (onDay 10) examplePostings True)"
  using networth_record_identities
    [of exampleServices "onDay 10" examplePostings True]
  by (simp add: exampleTimeline list_all_iff)

subsection \<open>Capital gains in the daily fold\<close>

lemma lookupRunningSum_accumulate:
  "lookupRunningSum (accumulate sv start p acc) c =
     (if c = Commodity p then addPosting sv start p (lookupRunningSum acc c)
      else lookupRunningSum acc c)"
  by (simp add: lookupRunningSum_def accumulate_def update_conv')

text \<open>
  Counterexample to claim C2 as stated: the capital-gains posting of the example, amount
  -500, consumed into an empty accumulator, leaves an entry whose withdrawal is 500.
\<close>

theorem capital_gains_changes_accumulator:
  "IsCapitalGains exampleServices gainPosting \<and>
   accumulate exampleServices (onDay 2) gainPosting [] =
     [(''INR'', \<lparr>investment = 0, withdrawal = 500, balance = 0, balanceUnits = 0\<rparr>)] \<and>
   withdrawal (lookupRunningSum (accumulate exampleServices (onDay 2) gainPosting []) ''INR'')
     \<noteq> withdrawal (lookupRunningSum [] ''INR'')"
  by (simp add: accumulate_def addPosting_def lookupRunningSum_def zeroRunningSum_def
      exampleServices_def gainPosting_def Let_def)

text \<open>
  Claim C2, amended. One turn of the inner loop of \<open>computeNetworthTimeline\<close> on a posting
  classified as capital gains adds 0 to the balance and 0 to the balance units of every
  commodity. To the running sum of the posting's own commodity it adds the amount to
  investment when the amount is positive, and minus the amount to withdrawal when the
  amount is negative, unless the posting is also interest; investment and withdrawal of the
  other commodities are unchanged.
\<close>

theorem capital_gains_posting_effect:
  assumes "IsCapitalGains sv p"
  shows
    "balance (lookupRunningSum (accumulate sv start p acc) c) =
       balance (lookupRunningSum acc c) \<and>
     balanceUnits (lookupRunningSum (accumulate sv start p acc) c) =
       balanceUnits (lookupRunningSum acc c) \<and>
     investment (lookupRunningSum (accumulate sv start p acc) c) =
       investment (lookupRunningSum acc c) +
         (if c = Commodity p \<and> 0 < Amount p \<and> \<not> IsInterest sv p then Amount p else 0) \<and>
     withdrawal (lookupRunningSum (accumulate sv start p acc) c) =
       withdrawal (lookupRunningSum acc c) +
         (if c = Commodity p \<and> Amount p < 0 \<and> \<not> IsInterest sv p then - Amount p else 0)"
  using assms by (simp add: lookupRunningSum_accumulate addPosting_def Let_def)

theorem capital_gains_posting_effect_witness:
  "IsCapitalGains exampleServices gainPosting \<and>
   balance (lookupRunningSum (accumulate exampleServices (onDay 2) gainPosting []) ''INR'') = 0 \<and>
   balanceUnits (lookupRunningSum (accumulate exampleServices (onDay 2) gainPosting []) ''INR'')
     = 0 \<and>
   investment (lookupRunningSum (accumulate exampleServices (onDay 2) gainPosting []) ''INR'')
     = 0 \<and>
   withdrawal (lookupRunningSum (accumulate exampleServices (onDay 2) gainPosting []) ''INR'')
     = 500"
proof -
  have cg: "IsCapitalGains exampleServices gainPosting"
    by (simp add: exampleServices_def gainPosting_def)
  have amount: "Amount gainPosting = - 500" "Commodity gainPosting = ''INR''"
    "\<not> IsInterest exampleServices gainPosting"
    by (simp_all add: exampleServices_def gainPosting_def)
  show ?thesis
    using cg capital_gains_posting_effect [OF cg, of "onDay 2" "[]" "''INR''"]
    by (simp add: amount lookupRunningSum_def zeroRunningSum_def)
qed

subsection \<open>Termination of the daily loop\<close>




section \<open>Properties of the asset breakdown\<close>

text \<open>What the fold for the balance units computes: a posting in a currency resets the
  running sum, so the result is the sum over the non-currency postings that follow the last
  currency posting of the slice.\<close>

lemma balanceUnits_fold:
  "foldl (\<lambda>acc p. if \<not> isCurrency (Commodity p) then acc + Quantity p else 0) (0::decimal) ps =
     sum_list (map Quantity (takeWhile (\<lambda>p. \<not> isCurrency (Commodity p)) (rev ps)))"
  by (induction ps rule: rev_induct) simp_all

lemma ComputeBreakdown_balanceUnits:
  "BreakdownBalanceUnits (ComputeBreakdown sv ps leaf groupName) =
     (if leaf
      then sum_list (map Quantity (takeWhile (\<lambda>p. \<not> IsCurrency sv (Commodity p)) (rev ps)))
      else 0)"
  by (simp add: ComputeBreakdown_def Let_def balanceUnits_fold)

text \<open>
  Claim C3 fails on the code. For the leaf slice of the example the account holds
  10 - 4 = 6 units, the sum of the quantities of its non-currency postings, and
  \<open>ComputeBreakdown\<close> returns 0 balance units: the capital-gains posting, which is in the
  default currency and comes last, makes the fold return zero instead of the sum so far.
\<close>

theorem ComputeBreakdown_balanceUnits_reset:
  "BreakdownBalanceUnits
     (ComputeBreakdown exampleServices leafPostings True ''Assets:Equity:NIFTY'') = 0 \<and>
   sum_list (map Quantity
     (filter (\<lambda>p. \<not> IsCurrency exampleServices (Commodity p)) leafPostings)) = 6"
  by (simp add: ComputeBreakdown_def Let_def leafPostings_def buyPosting_def
      partSalePosting_def partGainPosting_def exampleServices_def)

section \<open>Properties of the budget\<close>

subsection \<open>The loops over accounts and months\<close>

lemma buildBudget_fields:
  "BudgetAccount (buildBudget ctx date account b fs es past) = account"
  "Forecast (buildBudget ctx date account b fs es past) = CostSum fs"
  "Actual (buildBudget ctx date account b fs es past) = CostSum es"
  "Expenses (buildBudget ctx date account b fs es past) = es"
  "Rollover (buildBudget ctx date account b fs es past) = (if rolloverYes ctx then b else 0)"
  "Available (buildBudget ctx date account b fs es past) =
     (if rolloverYes ctx then b + (CostSum fs - CostSum es)
      else if past then 0 else CostSum fs - CostSum es)"
  by (simp_all add: buildBudget_def Let_def)

lemma accountLoop_Cons:
  "accountLoop ctx date ok fba (a # accounts) balances pool =
     (let b = buildBudget ctx date a (balanceOf balances a) (lookupPostings fba a)
                (if \<not> ok then [] else fst (popExpenses a pool)) (date < currentMonth ctx);
          r = accountLoop ctx date ok fba accounts
                (balances(a \<mapsto> (if 0 < Available b then Available b else 0)))
                (snd (popExpenses a pool))
      in (b # fst r, snd r))"
  by (simp add: Let_def case_prod_beta)

lemma accountLoop_ConsD:
  assumes "accountLoop ctx date ok fba (a # accounts) balances pool = (bs, balances')"
  shows "\<exists>b rest.
    b = buildBudget ctx date a (balanceOf balances a) (lookupPostings fba a)
          (if ok then fst (popExpenses a pool) else []) (date < currentMonth ctx) \<and>
    accountLoop ctx date ok fba accounts (balances(a \<mapsto> max 0 (Available b)))
      (snd (popExpenses a pool)) = (rest, balances') \<and>
    bs = b # rest"
proof -
  define es where "es = (if ok then fst (popExpenses a pool) else [])"
  define b where "b = buildBudget ctx date a (balanceOf balances a) (lookupPostings fba a) es
           (date < currentMonth ctx)"
  define r where "r = accountLoop ctx date ok fba accounts
      (balances(a \<mapsto> max 0 (Available b))) (snd (popExpenses a pool))"
  have es': "(if \<not> ok then [] else fst (popExpenses a pool)) = es"
    by (simp add: es_def)
  have m: "(if 0 < Available b then Available b else 0) = max 0 (Available b)"
    by (simp add: max_def)
  have "accountLoop ctx date ok fba (a # accounts) balances pool = (b # fst r, snd r)"
    unfolding accountLoop_Cons Let_def es' b_def[symmetric] m r_def[symmetric] ..
  with assms have "bs = b # fst r" "snd r = balances'" by simp_all
  then have "r = (fst r, balances')" "bs = b # fst r"
    by (simp_all add: prod_eq_iff)
  then show ?thesis
    unfolding r_def b_def es_def by blast
qed

lemma accountLoop_length:
  "accountLoop ctx date ok fba accounts balances pool = (bs, balances') \<Longrightarrow>
     length bs = length accounts"
proof (induction accounts arbitrary: balances pool bs)
  case Nil
  then show ?case by simp
next
  case (Cons a accounts)
  from accountLoop_ConsD[OF Cons.prems] obtain b rest where
    "accountLoop ctx date ok fba accounts (balances(a \<mapsto> max 0 (Available b)))
       (snd (popExpenses a pool)) = (rest, balances')" "bs = b # rest"
    by auto
  with Cons.IH show ?case by simp
qed

lemma accountLoop_other:
  "accountLoop ctx date ok fba accounts balances pool = (bs, balances') \<Longrightarrow>
     x \<notin> set accounts \<Longrightarrow> balances' x = balances x"
proof (induction accounts arbitrary: balances pool bs)
  case Nil
  then show ?case by simp
next
  case (Cons a accounts)
  from accountLoop_ConsD[OF Cons.prems(1)] obtain b :: AccountBudget and rest where
    r: "accountLoop ctx date ok fba accounts (balances(a \<mapsto> max 0 (Available b)))
       (snd (popExpenses a pool)) = (rest, balances')"
    by auto
  from Cons.prems(2) have "x \<noteq> a" "x \<notin> set accounts" by auto
  with Cons.IH[OF r] show ?case by simp
qed

lemma accountLoop_nth:
  "accountLoop ctx date ok fba accounts balances pool = (bs, balances') \<Longrightarrow>
   distinct accounts \<Longrightarrow> j < length accounts \<Longrightarrow>
     BudgetAccount (bs ! j) = accounts ! j \<and>
     Rollover (bs ! j) = (if rolloverYes ctx then balanceOf balances (accounts ! j) else 0) \<and>
     Available (bs ! j) =
       (if rolloverYes ctx
        then balanceOf balances (accounts ! j) + (Forecast (bs ! j) - Actual (bs ! j))
        else if date < currentMonth ctx then 0 else Forecast (bs ! j) - Actual (bs ! j)) \<and>
     balanceOf balances' (accounts ! j) = max 0 (Available (bs ! j))"
proof (induction accounts arbitrary: balances pool bs j)
  case Nil
  then show ?case by simp
next
  case (Cons a accounts)
  from accountLoop_ConsD[OF Cons.prems(1)] obtain b rest where
    b: "b = buildBudget ctx date a (balanceOf balances a) (lookupPostings fba a)
          (if ok then fst (popExpenses a pool) else []) (date < currentMonth ctx)"
    and r: "accountLoop ctx date ok fba accounts (balances(a \<mapsto> max 0 (Available b)))
       (snd (popExpenses a pool)) = (rest, balances')"
    and bs: "bs = b # rest"
    by auto
  from Cons.prems(2) have dist: "distinct accounts" and notin: "a \<notin> set accounts" by auto
  show ?case
  proof (cases j)
    case 0
    have "balances' a = (balances(a \<mapsto> max 0 (Available b))) a"
      by (rule accountLoop_other[OF r notin])
    then have "balanceOf balances' a = max 0 (Available b)"
      by (simp add: balanceOf_def)
    moreover have "BudgetAccount b = a"
      "Rollover b = (if rolloverYes ctx then balanceOf balances a else 0)"
      "Available b = (if rolloverYes ctx then balanceOf balances a + (Forecast b - Actual b)
         else if date < currentMonth ctx then 0 else Forecast b - Actual b)"
      unfolding b by (simp_all add: buildBudget_fields)
    ultimately show ?thesis unfolding 0 bs by simp
  next
    case (Suc i)
    with Cons.prems(3) have i: "i < length accounts" by simp
    then have ne: "accounts ! i \<noteq> a" using notin by (metis nth_mem)
    then have "balanceOf (balances(a \<mapsto> max 0 (Available b))) (accounts ! i) =
        balanceOf balances (accounts ! i)"
      by (simp add: balanceOf_def)
    with Cons.IH[OF r dist i] show ?thesis unfolding Suc bs by simp
  qed
qed

lemma budgetLoop_Nil:
  "(fst (budgetLoop ctx fs es accounts end start balances avail) = []) = (end < start)"
  by (subst budgetLoop.simps) (auto split: prod.splits)

lemma budgetLoop_unfold:
  assumes "start \<le> end"
    and "monthBudget ctx fs es accounts start balances avail = (budget, balances', avail')"
  shows "fst (budgetLoop ctx fs es accounts end start balances avail) =
     (start, budget) # fst (budgetLoop ctx fs es accounts end (start + 1) balances' avail')"
  using assms by (subst budgetLoop.simps) (simp split: prod.splits)

lemma monthBudget_accounts:
  assumes "monthBudget ctx fs es accounts start balances avail = (budget, balances', avail')"
  shows "accountLoop ctx start (es start \<noteq> None)
           (GroupByAccount (case fs start of None \<Rightarrow> [] | Some f \<Rightarrow> f)) accounts balances
           (GroupByAccount (case es start of None \<Rightarrow> [] | Some e \<Rightarrow> e)) =
         (Accounts budget, balances')"
  using assms by (auto simp: monthBudget_def Let_def split: prod.splits)

lemma budgetLoop_nth:
  "distinct accounts \<Longrightarrow>
   k < length (fst (budgetLoop ctx fs es accounts end start balances avail)) \<Longrightarrow>
   j < length accounts \<Longrightarrow>
     fst (fst (budgetLoop ctx fs es accounts end start balances avail) ! k) = start + int k \<and>
     length (Accounts (snd (fst (budgetLoop ctx fs es accounts end start balances avail) ! k)))
       = length accounts \<and>
     (let res = fst (budgetLoop ctx fs es accounts end start balances avail);
          ab = Accounts (snd (res ! k)) ! j;
          carried = (if k = 0 then balanceOf balances (accounts ! j)
                     else max 0 (Available (Accounts (snd (res ! (k - 1))) ! j)))
      in BudgetAccount ab = accounts ! j \<and>
         Rollover ab = (if rolloverYes ctx then carried else 0) \<and>
         Available ab =
           (if rolloverYes ctx then carried + (Forecast ab - Actual ab)
            else if start + int k < currentMonth ctx then 0 else Forecast ab - Actual ab))"
proof (induction ctx fs es accounts "end" start balances avail arbitrary: k
       rule: budgetLoop.induct)
  case (1 ctx fs es accounts "end" start balances avail)
  let ?res = "fst (budgetLoop ctx fs es accounts end start balances avail)"
  from "1.prems"(2) have "?res \<noteq> []" by auto
  then have le: "start \<le> end" by (simp add: budgetLoop_Nil)
  obtain budget balances' avail' where
    mb: "monthBudget ctx fs es accounts start balances avail = (budget, balances', avail')"
    by (cases "monthBudget ctx fs es accounts start balances avail")
  define res' where "res' = fst (budgetLoop ctx fs es accounts end (start + 1) balances' avail')"
  have res: "?res = (start, budget) # res'"
    unfolding res'_def by (rule budgetLoop_unfold[OF le mb])
  note al = monthBudget_accounts[OF mb]
  note len0 = accountLoop_length[OF al]
  note nth0 = accountLoop_nth[OF al "1.prems"(1) "1.prems"(3)]
  show ?case
  proof (cases k)
    case 0
    from len0 nth0 show ?thesis unfolding res 0 Let_def by simp
  next
    case (Suc k')
    with "1.prems"(2) res have k': "k' < length res'" by simp
    note IH = "1.IH"[OF le mb[symmetric] refl "1.prems"(1) k'[unfolded res'_def] "1.prems"(3),
        folded res'_def, unfolded Let_def]
    have ar: "start + int (Suc k') = start + 1 + int k'" by simp
    show ?thesis
    proof (cases k')
      case 0
      from IH nth0 show ?thesis unfolding res Suc 0 Let_def by simp
    next
      case (Suc k'')
      from IH show ?thesis unfolding res \<open>k = Suc k'\<close> Let_def ar unfolding Suc by simp
    qed
  qed
qed

lemma distinct_forecastAccounts: "distinct (forecastAccounts fps)"
  by (simp add: forecastAccounts_def)

lemma computeBudet_months:
  "budgetsByMonth (computeBudet ctx fps eps) =
     (if fps = [] then []
      else fst (budgetLoop ctx (GroupByMonth fps) (GroupByMonth eps) (forecastAccounts fps)
             (month (Date (last fps))) (month (Date (hd fps))) Map.empty (checkingBalance ctx)))"
  by (simp add: computeBudet_def Let_def split: prod.splits)


lemma foodBudget:
  "map (\<lambda>(m, b). (m, map (\<lambda>ab. (BudgetAccount ab, Forecast ab, Actual ab, Rollover ab, Available ab))
      (Accounts b))) (budgetsByMonth (computeBudet rolloverContext foodForecasts foodExpenses)) =
   [(0, [(''Expenses:Food'', 10000, 8000, 0, 2000)]),
    (1, [(''Expenses:Food'', 10000, 12000, 2000, 0)])]"
  by (simp add: computeBudet_def budgetLoop.simps monthBudget_def GroupByMonth_def
      GroupByAccount_def forecastAccounts_def buildBudget_def CostSum_def balanceOf_def
      lookupPostings_def IsSameOrParent_def rolloverContext_def foodForecasts_def
      foodExpenses_def Let_def)

subsection \<open>Roll-over and available amount\<close>

text \<open>
  Claim C4. In the budgets \<open>computeBudet\<close> returns, the entry of index \<open>k\<close> is the month
  \<open>k\<close> months after the first forecast posting, and its account budget of index \<open>j\<close> is
  that of the \<open>j\<close>-th forecast account in sorted order. With roll-over enabled its
  rollover is the maximum of 0 and the available amount of the same account in the previous
  month (0 in the first month, which has no previous month), and its available amount is
  rollover + forecast - actual. With roll-over disabled its rollover is 0, and its available
  amount is 0 when the month is before the current month and forecast - actual otherwise.
\<close>

theorem budget_rollover_available:
  assumes "k < length (budgetsByMonth (computeBudet ctx forecastPostings expensesPostings))"
    and "j < length (forecastAccounts forecastPostings)"
  shows
    "(let res = budgetsByMonth (computeBudet ctx forecastPostings expensesPostings);
          ab = Accounts (snd (res ! k)) ! j;
          previous = (if k = 0 then 0 else Available (Accounts (snd (res ! (k - 1))) ! j))
      in fst (res ! k) = month (Date (hd forecastPostings)) + int k \<and>
         BudgetAccount ab = forecastAccounts forecastPostings ! j \<and>
         (if rolloverYes ctx
          then Rollover ab = max 0 previous \<and>
               Available ab = Rollover ab + Forecast ab - Actual ab
          else Rollover ab = 0 \<and>
               Available ab =
                 (if fst (res ! k) < currentMonth ctx then 0 else Forecast ab - Actual ab)))"
proof -
  from assms(1) have ne: "forecastPostings \<noteq> []"
    by (auto simp: computeBudet_months)
  let ?loop = "budgetLoop ctx (GroupByMonth forecastPostings) (GroupByMonth expensesPostings)
      (forecastAccounts forecastPostings) (month (Date (last forecastPostings)))
      (month (Date (hd forecastPostings))) Map.empty (checkingBalance ctx)"
  have res: "budgetsByMonth (computeBudet ctx forecastPostings expensesPostings) = fst ?loop"
    using ne by (simp add: computeBudet_months)
  from assms(1) have k: "k < length (fst ?loop)" by (simp only: res)
  note L = budgetLoop_nth[OF distinct_forecastAccounts k assms(2), unfolded Let_def]
  have z: "balanceOf Map.empty a = 0" for a by (simp add: balanceOf_def)
  show ?thesis
  proof (cases k)
    case 0
    from L show ?thesis unfolding res Let_def 0 by (simp add: z)
  next
    case (Suc k')
    from L show ?thesis unfolding res Let_def Suc by simp
  qed
qed

theorem budget_rollover_available_witness:
  "1 < length (budgetsByMonth (computeBudet rolloverContext foodForecasts foodExpenses)) \<and>
   0 < length (forecastAccounts foodForecasts) \<and>
   (let res = budgetsByMonth (computeBudet rolloverContext foodForecasts foodExpenses);
        ab = Accounts (snd (res ! 1)) ! 0;
        previous = (if (1::nat) = 0 then 0 else Available (Accounts (snd (res ! (1 - 1))) ! 0))
    in fst (res ! 1) = month (Date (hd foodForecasts)) + int 1 \<and>
       BudgetAccount ab = forecastAccounts foodForecasts ! 0 \<and>
       (if rolloverYes rolloverContext
        then Rollover ab = max 0 previous \<and>
             Available ab = Rollover ab + Forecast ab - Actual ab
        else Rollover ab = 0 \<and>
             Available ab =
               (if fst (res ! 1) < currentMonth rolloverContext then 0
                else Forecast ab - Actual ab))) \<and>
   Available (Accounts (snd (budgetsByMonth
     (computeBudet rolloverContext foodForecasts foodExpenses) ! 0)) ! 0) = 2000 \<and>
   Available (Accounts (snd (budgetsByMonth
     (computeBudet rolloverContext foodForecasts foodExpenses) ! 1)) ! 0) = 0"
proof -
  let ?res = "budgetsByMonth (computeBudet rolloverContext foodForecasts foodExpenses)"
  have len: "length ?res = 2"
    using arg_cong[OF foodBudget, of length] by simp
  then have h1: "1 < length ?res" by simp
  have h2: "0 < length (forecastAccounts foodForecasts)"
    by (simp add: forecastAccounts_def foodForecasts_def)
  from len obtain x y where xy: "?res = [x, y]"
    by (auto simp: length_Suc_conv numeral_2_eq_2)
  from foodBudget have av:
    "Available (Accounts (snd (?res ! 0)) ! 0) = 2000"
    "Available (Accounts (snd (?res ! 1)) ! 0) = 0"
    unfolding xy by (auto split: prod.splits)
  show ?thesis
    by (intro conjI h1 h2 av budget_rollover_available[OF h1 h2])
qed

subsection \<open>Attribution of the expenses\<close>

lemma popExpenses_eq:
  "popExpenses fa pool =
     (concat (map snd (filter (\<lambda>(a, es). IsSameOrParent a fa) pool)),
      filter (\<lambda>(a, es). \<not> IsSameOrParent a fa) pool)"
  by (induction pool) (auto split: prod.splits)

lemma accountLoop_expenses:
  "accountLoop ctx date ok fba accounts balances pool = (bs, balances') \<Longrightarrow>
   j < length accounts \<Longrightarrow>
     Actual (bs ! j) = CostSum (Expenses (bs ! j)) \<and>
     Forecast (bs ! j) = CostSum (lookupPostings fba (accounts ! j)) \<and>
     Expenses (bs ! j) =
       (if ok
        then concat (map snd (filter
               (\<lambda>(a, es). IsSameOrParent a (accounts ! j) \<and>
                          (\<forall>i<j. \<not> IsSameOrParent a (accounts ! i))) pool))
        else [])"
proof (induction accounts arbitrary: balances pool bs j)
  case Nil
  then show ?case by simp
next
  case (Cons a accounts)
  from accountLoop_ConsD[OF Cons.prems(1)] obtain b rest where
    b: "b = buildBudget ctx date a (balanceOf balances a) (lookupPostings fba a)
          (if ok then fst (popExpenses a pool) else []) (date < currentMonth ctx)"
    and r: "accountLoop ctx date ok fba accounts (balances(a \<mapsto> max 0 (Available b)))
       (snd (popExpenses a pool)) = (rest, balances')"
    and bs: "bs = b # rest"
    by auto
  show ?case
  proof (cases j)
    case 0
    show ?thesis unfolding 0 bs b
      by (simp add: buildBudget_fields popExpenses_eq)
  next
    case (Suc i)
    with Cons.prems(2) have i: "i < length accounts" by simp
    have flt: "filter (\<lambda>(x, es). IsSameOrParent x (accounts ! i) \<and>
                          (\<forall>i'<i. \<not> IsSameOrParent x (accounts ! i')))
                 (snd (popExpenses a pool)) =
               filter (\<lambda>(x, es). IsSameOrParent x ((a # accounts) ! Suc i) \<and>
                          (\<forall>i'<Suc i. \<not> IsSameOrParent x ((a # accounts) ! i'))) pool"
      unfolding popExpenses_eq snd_conv filter_filter
      by (rule filter_cong) (auto simp: All_less_Suc2)
    from Cons.IH[OF r i] show ?thesis
      unfolding Suc bs flt by simp
  qed
qed

lemma mset_concat_groups:
  "distinct as \<Longrightarrow>
     mset (concat (map (\<lambda>a. filter (\<lambda>p. f p = a) xs) as)) = {#p \<in># mset xs. f p \<in> set as#}"
proof (induction as)
  case Nil
  show ?case by simp
next
  case (Cons a as)
  then have "a \<notin> set as" and IH: "mset (concat (map (\<lambda>a. filter (\<lambda>p. f p = a) xs) as))
      = {#p \<in># mset xs. f p \<in> set as#}" by auto
  have "{#p \<in># mset xs. f p \<in> set (a # as)#} =
      {#p \<in># mset xs. f p = a#} + {#p \<in># mset xs. f p \<in> set as#}"
    using \<open>a \<notin> set as\<close>
    by (induction xs) auto
  with IH show ?case by simp
qed

lemma mset_GroupByAccount_filter:
  "mset (concat (map snd (filter (\<lambda>(a, es). Q a) (GroupByAccount ps)))) =
     {#p \<in># mset ps. Q (Account p)#}"
proof -
  let ?as = "filter Q (remdups (map Account ps))"
  have "filter (\<lambda>(a, es). Q a) (GroupByAccount ps) =
      map (\<lambda>a. (a, filter (\<lambda>p. Account p = a) ps)) ?as"
    by (simp add: GroupByAccount_def filter_map comp_def)
  then have "concat (map snd (filter (\<lambda>(a, es). Q a) (GroupByAccount ps))) =
      concat (map (\<lambda>a. filter (\<lambda>p. Account p = a) ps) ?as)"
    by (simp add: comp_def)
  moreover have "distinct ?as" by simp
  ultimately have "mset (concat (map snd (filter (\<lambda>(a, es). Q a) (GroupByAccount ps)))) =
      {#p \<in># mset ps. Account p \<in> set ?as#}"
    by (simp only: mset_concat_groups)
  also have "\<dots> = {#p \<in># mset ps. Q (Account p)#}"
    by (rule filter_mset_cong) auto
  finally show ?thesis .
qed

lemma lookupPostings_GroupByAccount:
  "lookupPostings (GroupByAccount ps) a = filter (\<lambda>p. Account p = a) ps"
proof -
  have "map_of (map (\<lambda>a. (a, filter (\<lambda>p. Account p = a) ps)) as) a =
      (if a \<in> set as then Some (filter (\<lambda>p. Account p = a) ps) else None)" for as
    by (induction as) auto
  moreover have "a \<notin> Account ` set ps \<Longrightarrow> filter (\<lambda>p. Account p = a) ps = []"
    by (auto simp: filter_empty_conv)
  ultimately show ?thesis
    by (auto simp: lookupPostings_def GroupByAccount_def)
qed

lemma find_first_index:
  "distinct xs \<Longrightarrow> j < length xs \<Longrightarrow>
     (find P xs = Some (xs ! j)) = (P (xs ! j) \<and> (\<forall>i<j. \<not> P (xs ! i)))"
  by (auto simp: find_Some_iff nth_eq_iff_index_eq)

lemma GroupByMonth_lookup:
  "(case GroupByMonth ps m of None \<Rightarrow> [] | Some g \<Rightarrow> g) = filter (\<lambda>p. month (Date p) = m) ps"
  by (simp add: GroupByMonth_def Let_def)

lemma GroupByMonth_ok:
  "(GroupByMonth ps m \<noteq> None) = (filter (\<lambda>p. month (Date p) = m) ps \<noteq> [])"
  by (simp add: GroupByMonth_def Let_def)

lemma monthBudget_expenses:
  assumes mb: "monthBudget ctx (GroupByMonth fps) (GroupByMonth eps) accounts start balances avail
      = (budget, balances', avail')"
    and dist: "distinct accounts" and j: "j < length accounts"
  shows "Actual (Accounts budget ! j) = CostSum (Expenses (Accounts budget ! j)) \<and>
     Forecast (Accounts budget ! j) =
       CostSum (filter (\<lambda>p. Account p = accounts ! j)
         (filter (\<lambda>p. month (Date p) = start) fps)) \<and>
     mset (Expenses (Accounts budget ! j)) =
       {#p \<in># mset (filter (\<lambda>p. month (Date p) = start) eps).
          find (IsSameOrParent (Account p)) accounts = Some (accounts ! j)#}"
proof -
  let ?es = "filter (\<lambda>p. month (Date p) = start) eps"
  note al = monthBudget_accounts[OF mb, unfolded GroupByMonth_lookup GroupByMonth_ok]
  note E = accountLoop_expenses[OF al j, unfolded lookupPostings_GroupByAccount]
  let ?Q = "\<lambda>a. IsSameOrParent a (accounts ! j) \<and> (\<forall>i<j. \<not> IsSameOrParent a (accounts ! i))"
  have Q: "?Q (Account p) = (find (IsSameOrParent (Account p)) accounts = Some (accounts ! j))"
    for p :: "instant posting"
    by (simp only: find_first_index[OF dist j])
  have "mset (Expenses (Accounts budget ! j)) = {#p \<in># mset ?es. ?Q (Account p)#}"
  proof (cases "?es = []")
    case True
    with E show ?thesis by simp
  next
    case False
    with E have "Expenses (Accounts budget ! j) =
        concat (map snd (filter (\<lambda>(a, es). ?Q a) (GroupByAccount ?es)))"
      by simp
    then show ?thesis by (simp only: mset_GroupByAccount_filter)
  qed
  then have "mset (Expenses (Accounts budget ! j)) =
       {#p \<in># mset ?es. find (IsSameOrParent (Account p)) accounts = Some (accounts ! j)#}"
    by (simp only: Q)
  with E show ?thesis by simp
qed

lemma budgetLoop_expenses:
  "distinct accounts \<Longrightarrow>
   k < length (fst (budgetLoop ctx (GroupByMonth fps) (GroupByMonth eps) accounts end start
                      balances avail)) \<Longrightarrow>
   j < length accounts \<Longrightarrow>
     (let ab = Accounts (snd (fst (budgetLoop ctx (GroupByMonth fps) (GroupByMonth eps) accounts
                  end start balances avail) ! k)) ! j
      in Actual ab = CostSum (Expenses ab) \<and>
         Forecast ab =
           CostSum (filter (\<lambda>p. Account p = accounts ! j)
             (filter (\<lambda>p. month (Date p) = start + int k) fps)) \<and>
         mset (Expenses ab) =
           {#p \<in># mset (filter (\<lambda>p. month (Date p) = start + int k) eps).
              find (IsSameOrParent (Account p)) accounts = Some (accounts ! j)#})"
proof (induction ctx "GroupByMonth fps" "GroupByMonth eps" accounts "end" start balances avail
       arbitrary: k rule: budgetLoop.induct)
  case (1 ctx accounts "end" start balances avail)
  let ?res = "fst (budgetLoop ctx (GroupByMonth fps) (GroupByMonth eps) accounts end start
      balances avail)"
  from "1.prems"(2) have "?res \<noteq> []" by auto
  then have le: "start \<le> end" by (simp add: budgetLoop_Nil)
  obtain budget balances' avail' where
    mb: "monthBudget ctx (GroupByMonth fps) (GroupByMonth eps) accounts start balances avail =
       (budget, balances', avail')"
    by (cases "monthBudget ctx (GroupByMonth fps) (GroupByMonth eps) accounts start balances avail")
  define res' where "res' = fst (budgetLoop ctx (GroupByMonth fps) (GroupByMonth eps) accounts
      end (start + 1) balances' avail')"
  have res: "?res = (start, budget) # res'"
    unfolding res'_def by (rule budgetLoop_unfold[OF le mb])
  show ?case
  proof (cases k)
    case 0
    from monthBudget_expenses[OF mb "1.prems"(1) "1.prems"(3)]
    show ?thesis unfolding res 0 Let_def by simp
  next
    case (Suc k')
    with "1.prems"(2) res have k': "k' < length res'" by simp
    note IH = "1.hyps"[OF le mb[symmetric] refl "1.prems"(1) k'[unfolded res'_def] "1.prems"(3),
        folded res'_def, unfolded Let_def]
    have ar: "start + int (Suc k') = start + 1 + int k'" by simp
    from IH show ?thesis unfolding res Suc Let_def ar by simp
  qed
qed

lemma prefix_le: "prefix xs ys \<Longrightarrow> xs \<le> (ys :: string)"
  by (auto simp: prefix_def list_le_def list_less_def intro: lexord_append_rightI
      dest: neq_Nil_conv[THEN iffD1])

lemma IsSameOrParent_prefix: "IsSameOrParent a fa \<Longrightarrow> prefix fa a"
  by (auto simp: IsSameOrParent_def dest: append_prefixD)

lemma sorted_first_least_specific:
  assumes srt: "sorted accounts"
    and fnd: "find (IsSameOrParent a) accounts = Some fa"
    and fb: "fb \<in> set accounts" and par: "IsSameOrParent a fb"
  shows "IsSameOrParent fb fa"
proof -
  from fnd obtain i where i: "i < length accounts" "fa = accounts ! i"
    "IsSameOrParent a fa" "\<forall>j<i. \<not> IsSameOrParent a (accounts ! j)"
    by (auto simp: find_Some_iff)
  from fb obtain k where k: "k < length accounts" "fb = accounts ! k"
    by (auto simp: in_set_conv_nth)
  with par i(4) have "i \<le> k" by (metis not_le_imp_less)
  with srt i(1,2) k have le: "fa \<le> fb" by (simp add: sorted_nth_mono)
  from i(3) par have pa: "prefix fa a" and pb: "prefix fb a"
    by (simp_all add: IsSameOrParent_prefix)
  then consider "prefix fb fa" | "prefix fa fb" "fa \<noteq> fb"
    using prefix_same_cases by blast
  then show ?thesis
  proof cases
    case 1
    then have "fb \<le> fa" by (rule prefix_le)
    with le have "fb = fa" by simp
    then show ?thesis by (simp add: IsSameOrParent_def)
  next
    case 2
    then obtain zs where zs: "fb = fa @ zs" "zs \<noteq> []"
      by (auto simp: prefix_def)
    then obtain c r where fbeq: "fb = fa @ c # r"
      by (cases zs) auto
    from pb obtain t where a1: "a = fa @ c # r @ t"
      by (auto simp: prefix_def fbeq)
    then have "a \<noteq> fa" by simp
    with i(3) have "prefix (fa @ '':'') a" by (simp add: IsSameOrParent_def)
    with a1 have "c = CHR '':''" by (auto simp: prefix_def)
    then show ?thesis by (simp add: IsSameOrParent_def fbeq)
  qed
qed

lemma sorted_forecastAccounts: "sorted (forecastAccounts fps)"
  by (simp add: forecastAccounts_def)

lemma nestedBudget:
  "map (\<lambda>(m, b). (m, map (\<lambda>ab. (BudgetAccount ab, Actual ab)) (Accounts b)))
     (budgetsByMonth (computeBudet rolloverContext nestedForecasts [groceryExpense])) =
   [(0, [(''Expenses:Food'', 100), (''Expenses:Food:Groceries'', 0)])]"
  by (simp add: computeBudet_def budgetLoop.simps monthBudget_def GroupByMonth_def
      GroupByAccount_def forecastAccounts_def buildBudget_def CostSum_def balanceOf_def
      lookupPostings_def IsSameOrParent_def rolloverContext_def nestedForecasts_def
      groceryExpense_def Let_def)

text \<open>
  Counterexample to claim C5 as stated. \<^verbatim>\<open>Expenses:Food\<close> and \<^verbatim>\<open>Expenses:Food:Groceries\<close>
  both have a forecast, and 100 was spent on \<^verbatim>\<open>Expenses:Food:Groceries\<close>. The most specific
  forecast account of that expense is \<^verbatim>\<open>Expenses:Food:Groceries\<close> itself, and the budget
  counts the 100 as the actual of \<^verbatim>\<open>Expenses:Food\<close> and nothing for
  \<^verbatim>\<open>Expenses:Food:Groceries\<close>.
\<close>

theorem child_expense_goes_to_parent_forecast:
  "forecastAccounts nestedForecasts = [''Expenses:Food'', ''Expenses:Food:Groceries''] \<and>
   IsSameOrParent (Account groceryExpense) ''Expenses:Food:Groceries'' \<and>
   map (\<lambda>(m, b). (m, map (\<lambda>ab. (BudgetAccount ab, Actual ab)) (Accounts b)))
     (budgetsByMonth (computeBudet rolloverContext nestedForecasts [groceryExpense])) =
   [(0, [(''Expenses:Food'', 100), (''Expenses:Food:Groceries'', 0)])]"
  by (simp add: nestedBudget)
     (simp add: forecastAccounts_def nestedForecasts_def groceryExpense_def IsSameOrParent_def)

text \<open>
  Claim C5, amended. In the budget of a month, the expenses of the forecast account of
  index \<open>j\<close> are, up to their order, the expense postings of that month for which this
  account is the first forecast account, in sorted order, that is the posting's account or
  an ancestor of it at a colon boundary; its actual is their cost sum. That first account
  is the least specific one: every forecast account that is the posting's account or an
  ancestor of it is this account or lies below it. The expenses of two different forecast
  accounts of the same month share no posting.
\<close>

theorem expenses_go_to_first_forecast_account:
  assumes "k < length (budgetsByMonth (computeBudet ctx forecastPostings expensesPostings))"
    and "j < length (forecastAccounts forecastPostings)"
  shows
    "(let res = budgetsByMonth (computeBudet ctx forecastPostings expensesPostings);
          accounts = forecastAccounts forecastPostings;
          ab = Accounts (snd (res ! k)) ! j
      in BudgetAccount ab = accounts ! j \<and>
         Actual ab = CostSum (Expenses ab) \<and>
         mset (Expenses ab) =
           {#p \<in># mset (filter (\<lambda>p. month (Date p) = fst (res ! k)) expensesPostings).
              find (IsSameOrParent (Account p)) accounts = Some (BudgetAccount ab)#} \<and>
         (\<forall>p \<in> set (Expenses ab). \<forall>fb \<in> set accounts.
            IsSameOrParent (Account p) fb \<longrightarrow> IsSameOrParent fb (BudgetAccount ab)) \<and>
         (\<forall>j' < length accounts. j' \<noteq> j \<longrightarrow>
            set (Expenses ab) \<inter> set (Expenses (Accounts (snd (res ! k)) ! j')) = {}))"
proof -
  let ?accounts = "forecastAccounts forecastPostings"
  from assms(1) have ne: "forecastPostings \<noteq> []"
    by (auto simp: computeBudet_months)
  let ?loop = "budgetLoop ctx (GroupByMonth forecastPostings) (GroupByMonth expensesPostings)
      ?accounts (month (Date (last forecastPostings)))
      (month (Date (hd forecastPostings))) Map.empty (checkingBalance ctx)"
  define res where "res = fst ?loop"
  have res: "budgetsByMonth (computeBudet ctx forecastPostings expensesPostings) = res"
    using ne by (simp add: computeBudet_months res_def)
  from assms(1) have k: "k < length (fst ?loop)" by (simp only: res res_def)
  define m where "m = fst (res ! k)"
  define es where "es = filter (\<lambda>p. month (Date p) = m) expensesPostings"
  have dist: "distinct ?accounts" by (rule distinct_forecastAccounts)
  have m: "m = month (Date (hd forecastPostings)) + int k"
    using budgetLoop_nth[OF dist k assms(2)] by (simp add: m_def res_def)
  have acc: "BudgetAccount (Accounts (snd (res ! k)) ! i) = ?accounts ! i"
    if "i < length ?accounts" for i
    using budgetLoop_nth[OF dist k that] by (simp add: Let_def res_def)
  have E: "Actual (Accounts (snd (res ! k)) ! i) = CostSum (Expenses (Accounts (snd (res ! k)) ! i))
      \<and> mset (Expenses (Accounts (snd (res ! k)) ! i)) =
       {#p \<in># mset es. find (IsSameOrParent (Account p)) ?accounts = Some (?accounts ! i)#}"
    if "i < length ?accounts" for i
    using budgetLoop_expenses[OF dist k that] by (simp add: Let_def res_def es_def m)
  define ab where "ab = Accounts (snd (res ! k)) ! j"
  have a1: "BudgetAccount ab = ?accounts ! j" unfolding ab_def by (rule acc[OF assms(2)])
  have a2: "Actual ab = CostSum (Expenses ab)" unfolding ab_def using E[OF assms(2)] by simp
  have a3: "mset (Expenses ab) =
      {#p \<in># mset es. find (IsSameOrParent (Account p)) ?accounts = Some (BudgetAccount ab)#}"
    unfolding a1 unfolding ab_def using E[OF assms(2)] by simp
  have mem: "find (IsSameOrParent (Account p)) ?accounts = Some (?accounts ! i)"
    if "i < length ?accounts" "p \<in> set (Expenses (Accounts (snd (res ! k)) ! i))" for i p
  proof -
    from that(2) have "p \<in># mset (Expenses (Accounts (snd (res ! k)) ! i))" by simp
    then show ?thesis unfolding conjunct2[OF E[OF that(1)]] by simp
  qed
  have a4: "\<forall>p \<in> set (Expenses ab). \<forall>fb \<in> set ?accounts.
      IsSameOrParent (Account p) fb \<longrightarrow> IsSameOrParent fb (BudgetAccount ab)"
  proof (intro ballI impI)
    fix p fb
    assume p: "p \<in> set (Expenses ab)" and fb: "fb \<in> set ?accounts"
      and par: "IsSameOrParent (Account p) fb"
    from mem[OF assms(2) p[unfolded ab_def]]
    show "IsSameOrParent fb (BudgetAccount ab)"
      unfolding a1 by (rule sorted_first_least_specific[OF sorted_forecastAccounts _ fb par])
  qed
  have a5: "\<forall>j' < length ?accounts. j' \<noteq> j \<longrightarrow>
      set (Expenses ab) \<inter> set (Expenses (Accounts (snd (res ! k)) ! j')) = {}"
  proof (intro allI impI)
    fix j'
    assume j': "j' < length ?accounts" and neq: "j' \<noteq> j"
    show "set (Expenses ab) \<inter> set (Expenses (Accounts (snd (res ! k)) ! j')) = {}"
    proof (rule ccontr)
      assume "set (Expenses ab) \<inter> set (Expenses (Accounts (snd (res ! k)) ! j')) \<noteq> {}"
      then obtain p where "p \<in> set (Expenses ab)"
        "p \<in> set (Expenses (Accounts (snd (res ! k)) ! j'))" by blast
      with mem[OF assms(2), of p] mem[OF j', of p]
      have "?accounts ! j = ?accounts ! j'" by (simp add: ab_def)
      with dist assms(2) j' neq show False by (simp add: nth_eq_iff_index_eq)
    qed
  qed
  from a1 a2 a3 a4 a5 show ?thesis
    unfolding res Let_def ab_def[symmetric] es_def m_def by blast
qed

theorem expenses_go_to_first_forecast_account_witness:
  "0 < length (budgetsByMonth (computeBudet rolloverContext nestedForecasts [groceryExpense])) \<and>
   0 < length (forecastAccounts nestedForecasts) \<and>
   (let res = budgetsByMonth (computeBudet rolloverContext nestedForecasts [groceryExpense]);
        accounts = forecastAccounts nestedForecasts;
        ab = Accounts (snd (res ! 0)) ! 0
    in BudgetAccount ab = ''Expenses:Food'' \<and>
       Actual ab = 100 \<and>
       mset (Expenses ab) = {#groceryExpense#})"
proof -
  let ?res = "budgetsByMonth (computeBudet rolloverContext nestedForecasts [groceryExpense])"
  have acc: "forecastAccounts nestedForecasts = [''Expenses:Food'', ''Expenses:Food:Groceries'']"
    by (simp add: forecastAccounts_def nestedForecasts_def)
  have len: "length ?res = 1"
    using arg_cong[OF nestedBudget, of length] by simp
  then have h1: "0 < length ?res" by simp
  have h2: "0 < length (forecastAccounts nestedForecasts)" by (simp add: acc)
  from len obtain x where x: "?res = [x]"
    by (auto simp: length_Suc_conv)
  from nestedBudget have f: "fst (?res ! 0) = 0" "Actual (Accounts (snd (?res ! 0)) ! 0) = 100"
    unfolding x by (auto split: prod.splits)
  have g: "find (IsSameOrParent (Account groceryExpense)) (forecastAccounts nestedForecasts) =
      Some ''Expenses:Food''" "month (Date groceryExpense) = 0"
    unfolding acc by (simp_all add: groceryExpense_def IsSameOrParent_def)
  from expenses_go_to_first_forecast_account[OF h1 h2] f g
  have "BudgetAccount (Accounts (snd (?res ! 0)) ! 0) = ''Expenses:Food'' \<and>
     mset (Expenses (Accounts (snd (?res ! 0)) ! 0)) = {#groceryExpense#}"
    unfolding Let_def acc by simp
  with h1 h2 f show ?thesis unfolding Let_def by simp
qed

section \<open>Properties of the sheet language\<close>

subsection \<open>The depth of the environment\<close>

lemma extend_Inl:
  "(Environment_extend env s = Inl message) = (message = ''Call stack overflow'' \<and> STACK_LIMIT < depth env)"
  by (auto simp: Environment_extend_def Let_def)

lemma extend_Inr:
  "(Environment_extend env s = Inr env') =
     (depth env \<le> STACK_LIMIT \<and>
      env' = \<lparr>scope = scope env ++ s, depth = depth env + 1, postings = postings env\<rparr>)"
  by (auto simp: Environment_extend_def Let_def)

lemma extendChain_Inl:
  "(extendChain env ss = Inl message) =
     (message = ''Call stack overflow'' \<and> ss \<noteq> [] \<and> STACK_LIMIT + 1 < depth env + length ss)"
proof (induction ss arbitrary: env)
  case Nil
  show ?case by simp
next
  case (Cons s ss)
  show ?case
  proof (cases "Environment_extend env s")
    case (Inl m)
    then have "m = ''Call stack overflow''" "STACK_LIMIT < depth env"
      by (simp_all add: extend_Inl)
    with Inl show ?thesis by auto
  next
    case (Inr env')
    then have "depth env \<le> STACK_LIMIT" "depth env' = depth env + 1"
      by (simp_all add: extend_Inr)
    with Inr Cons.IH[of env'] show ?thesis by (cases ss) auto
  qed
qed

lemma extendChain_depth:
  "extendChain env ss = Inr env' \<Longrightarrow> depth env' = depth env + length ss"
proof (induction ss arbitrary: env)
  case Nil
  then show ?case by simp
next
  case (Cons s ss)
  then show ?case by (auto simp: extend_Inr split: sum.splits)
qed

lemma extendChain_replicate:
  "depth env + n \<le> STACK_LIMIT + 1 \<Longrightarrow>
     extendChain env (replicate n Map.empty) = Inr (env\<lparr>depth := depth env + n\<rparr>)"
proof (induction n arbitrary: env)
  case 0
  show ?case by simp
next
  case (Suc n)
  from Suc.prems have le: "depth env \<le> STACK_LIMIT" by simp
  have e: "Environment_extend env Map.empty = Inr (env\<lparr>depth := depth env + 1\<rparr>)"
    using le by (simp add: extend_Inr)
  from Suc.prems have "depth (env\<lparr>depth := depth env + 1\<rparr>) + n \<le> STACK_LIMIT + 1" by simp
  from Suc.IH[OF this] e show ?case by simp
qed

text \<open>
  Counterexample to claim C6 as stated. Extending an environment of depth 1000 does not
  throw and returns an environment of depth 1001, above the cap; and a chain of 1001 nested
  \<^verbatim>\<open>extend\<close> calls from a new environment ends, without an error, at depth 1001.
\<close>

theorem depth_1001_is_reached:
  "depth limitEnvironment = STACK_LIMIT \<and>
   Environment_extend limitEnvironment emptyScope = Inr overLimitEnvironment \<and>
   STACK_LIMIT < depth overLimitEnvironment \<and>
   extendChain limitEnvironment (replicate 1 emptyScope) = Inr overLimitEnvironment \<and>
   extendChain (newEnvironment []) (replicate 1001 emptyScope) = Inr overLimitEnvironment"
proof -
  have a: "depth (newEnvironment [] :: (int, unit) Environment) + 1001 \<le> STACK_LIMIT + 1"
    by (simp add: newEnvironment_def STACK_LIMIT_def)
  have b: "depth limitEnvironment + 1 \<le> STACK_LIMIT + 1"
    by (simp add: limitEnvironment_def STACK_LIMIT_def)
  show ?thesis
    unfolding emptyScope_def extendChain_replicate[OF a] extendChain_replicate[OF b]
    by (simp add: newEnvironment_def limitEnvironment_def overLimitEnvironment_def
        STACK_LIMIT_def emptyScope_def extend_Inr)
qed

text \<open>
  Claim C6, amended. \<^verbatim>\<open>extend\<close> throws, always with the message \<^verbatim>\<open>Call stack overflow\<close>,
  exactly when the depth of the environment it is called on exceeds 1000; otherwise it
  returns an environment one deeper, so that an environment of depth 1001 is created
  without an error. A chain of nested \<^verbatim>\<open>extend\<close> calls that starts from a new environment
  throws exactly when it has more than 1001 calls: the calls up to depth 1001 succeed and
  the call made at depth 1001 is the first to throw. A function called in an environment
  whose depth exceeds 1000 fails with that message before its body is evaluated.
\<close>

theorem extend_overflow_exactly:
  "(Environment_extend env s = Inl message) =
     (message = ''Call stack overflow'' \<and> STACK_LIMIT < depth env) \<and>
   (Environment_extend env s = Inr env') =
     (depth env \<le> STACK_LIMIT \<and>
      env' = \<lparr>scope = scope env ++ s, depth = depth env + 1, postings = postings env\<rparr>) \<and>
   (extendChain (newEnvironment ps) ss = Inl message) =
     (message = ''Call stack overflow'' \<and> STACK_LIMIT + 1 < length ss) \<and>
   (STACK_LIMIT < depth env \<longrightarrow>
      callFunction parameters body env args = Inl ''Call stack overflow'')"
proof (intro conjI impI)
  show "(Environment_extend env s = Inl message) =
     (message = ''Call stack overflow'' \<and> STACK_LIMIT < depth env)"
    by (rule extend_Inl)
  show "(Environment_extend env s = Inr env') =
     (depth env \<le> STACK_LIMIT \<and>
      env' = \<lparr>scope = scope env ++ s, depth = depth env + 1, postings = postings env\<rparr>)"
    by (rule extend_Inr)
  show "(extendChain (newEnvironment ps) ss = Inl message) =
     (message = ''Call stack overflow'' \<and> STACK_LIMIT + 1 < length ss)"
    by (auto simp: extendChain_Inl newEnvironment_def)
  assume "STACK_LIMIT < depth env"
  then have "Environment_extend env Map.empty = Inl ''Call stack overflow''"
    by (simp add: extend_Inl)
  then show "callFunction parameters body env args = Inl ''Call stack overflow''"
    by (simp add: callFunction_def)
qed


theorem extend_overflow_exactly_witness:
  "STACK_LIMIT < depth overLimitEnvironment \<and>
   Environment_extend overLimitEnvironment emptyScope = Inl ''Call stack overflow'' \<and>
   callFunction [''x''] (\<lambda>env. Inr 0) overLimitEnvironment [1] = Inl ''Call stack overflow'' \<and>
   extendChain (newEnvironment ([] :: unit list)) (replicate 1002 emptyScope)
     = Inl ''Call stack overflow''"
proof -
  note T = extend_overflow_exactly [of overLimitEnvironment emptyScope "''Call stack overflow''"
      overLimitEnvironment "[] :: unit list" "replicate 1002 emptyScope" "[''x'']"
      "\<lambda>env. Inr 0" "[1]"]
  have d: "STACK_LIMIT < depth overLimitEnvironment"
    by (simp add: overLimitEnvironment_def STACK_LIMIT_def)
  have l: "STACK_LIMIT + 1 < length (replicate 1002 emptyScope)"
    by (simp add: STACK_LIMIT_def)
  from T d have a: "Environment_extend overLimitEnvironment emptyScope =
      Inl ''Call stack overflow''" by blast
  from T d have b: "callFunction [''x''] (\<lambda>env. Inr 0) overLimitEnvironment [1] =
      Inl ''Call stack overflow''" by blast
  from T l have c: "extendChain (newEnvironment ([] :: unit list)) (replicate 1002 emptyScope)
     = Inl ''Call stack overflow''" by blast
  from d a b c show ?thesis by blast
qed

subsection \<open>An error on a line\<close>

lemma fillGap_eq:
  "fillGap n results lst =
     (results @ map (\<lambda>i. resultObject i False []) [lst + 1 ..< n],
      if lst + 1 < n then n - 1 else lst)"
proof (induction n results lst rule: fillGap.induct)
  case (1 n results lst)
  show ?case
  proof (cases "lst + 1 < n")
    case True
    have "fillGap n results lst =
        fillGap n (results @ [resultObject (lst + 1) False []]) (lst + 1)"
      using True by (subst fillGap.simps) simp
    also have "\<dots> = ((results @ [resultObject (lst + 1) False []]) @
        map (\<lambda>i. resultObject i False []) [lst + 1 + 1 ..< n],
        if lst + 1 + 1 < n then n - 1 else lst + 1)"
      by (rule "1.IH"[OF True])
    also have "\<dots> = (results @ map (\<lambda>i. resultObject i False []) [lst + 1 ..< n], n - 1)"
      using True by (auto simp: upt_conv_Cons)
    finally show ?thesis using True by simp
  next
    case False
    then show ?thesis by (subst fillGap.simps) simp
  qed
qed

lemma sheetLoop_append:
  assumes "sheetLoop render pre env results lst = (rs, last1, env1)"
    and "\<forall>r \<in> set rs. \<not> error r"
  shows "sheetLoop render (pre @ rest) env results lst = sheetLoop render rest env1 rs last1"
  using assms
proof (induction pre arbitrary: env results lst)
  case Nil
  then show ?case by simp
next
  case (Cons l ls)
  obtain results1 l1 where fg: "fillGap (lineNumber l) results lst = (results1, l1)"
    by (cases "fillGap (lineNumber l) results lst")
  show ?case
  proof (cases "LineAST_evaluate render l env")
    case (Inl message)
    with fg Cons.prems(1) have "rs = results1 @ [resultObject (lineNumber l) True message]"
      by simp
    with Cons.prems(2) show ?thesis by (simp add: resultObject_def)
  next
    case (Inr pr)
    obtain object env' where pr: "pr = (object, env')" by (cases pr)
    with Inr fg Cons.prems(1)
    have "sheetLoop render ls env' (results1 @ [object]) (l1 + 1) = (rs, last1, env1)"
      by simp
    from Cons.IH[OF this Cons.prems(2)] Inr fg pr show ?thesis by simp
  qed
qed

lemma exampleSheet_first_line:
  "sheetLoop showInt [assignLine 1 ''x'' 5] (newEnvironment []) [] 0 =
     ([resultObject 1 False ''5''], 1,
      \<lparr>scope = [''x'' \<mapsto> 5], depth = 0, postings = ([] :: unit list)\<rparr>)"
  by (simp add: fillGap_eq LineAST_evaluate_def assignLine_def newEnvironment_def showInt_def)

text \<open>
  Claim C7. Let the lines before line \<open>k\<close> evaluate, without an error, to the results \<open>rs\<close>,
  leaving the environment \<open>env1\<close>, and let line \<open>k\<close> raise an error with some message in that
  environment. Then the results of the sheet are \<open>rs\<close> unchanged, followed by the empty
  results of the lines without content before \<open>k\<close> and by the entry of line \<open>k\<close>, which has
  the error flag and carries the message. Nothing depends on the lines after \<open>k\<close>, whatever
  they are: no result is produced for them and the environment is left as line \<open>k\<close> found it.
\<close>

theorem error_stops_sheet:
  assumes "sheetLoop render before env [] 0 = (rs, last1, env1)"
    and "\<forall>r \<in> set rs. \<not> error r"
    and "LineAST_evaluate render l env1 = Inl message"
  shows "SheetAST_evaluate render before env = rs \<and>
    SheetAST_evaluate render (before @ l # after) env =
      rs @ map (\<lambda>i. resultObject i False []) [last1 + 1 ..< lineNumber l] @
        [resultObject (lineNumber l) True message] \<and>
    snd (snd (sheetLoop render (before @ l # after) env [] 0)) = env1"
proof -
  have "sheetLoop render (before @ l # after) env [] 0 =
      sheetLoop render (l # after) env1 rs last1"
    by (rule sheetLoop_append[OF assms(1,2)])
  also have "\<dots> = (rs @ map (\<lambda>i. resultObject i False []) [last1 + 1 ..< lineNumber l] @
        [resultObject (lineNumber l) True message],
        (if last1 + 1 < lineNumber l then lineNumber l - 1 else last1), env1)"
    using assms(3) by (simp add: fillGap_eq)
  finally show ?thesis using assms(1) by (simp add: SheetAST_evaluate_def)
qed


theorem error_stops_sheet_witness:
  "SheetAST_evaluate showInt exampleSheet (newEnvironment []) =
     [resultObject 1 False ''5'', resultObject 2 False [],
      resultObject 3 True ''Undefined variable g''] \<and>
   scope (snd (snd (sheetLoop showInt exampleSheet (newEnvironment []) [] 0))) ''x'' = Some 5"
proof -
  let ?env1 = "\<lparr>scope = [''x'' \<mapsto> 5], depth = 0, postings = ([] :: unit list)\<rparr>"
  have ok: "\<forall>r \<in> set [resultObject 1 False ''5'']. \<not> error r"
    by (simp add: resultObject_def)
  have err: "LineAST_evaluate showInt (identifierLine 3 ''g'') ?env1 =
      Inl ''Undefined variable g''"
    by (simp add: LineAST_evaluate_def identifierLine_def)
  have eq: "[assignLine 1 ''x'' 5] @ identifierLine 3 ''g'' # [assignLine 4 ''x'' 7] =
      exampleSheet"
    by (simp add: exampleSheet_def)
  have ln: "lineNumber (identifierLine 3 ''g'' :: (int, unit) LineAST) = 3"
    by (simp add: identifierLine_def)
  have up: "map (\<lambda>i. resultObject i False []) [1 + 1 ..< 3] = [resultObject 2 False []]"
    by (simp add: upt_rec numeral_2_eq_2[symmetric])
  note T = error_stops_sheet [OF exampleSheet_first_line ok err, of "[assignLine 4 ''x'' 7]",
      unfolded eq ln up]
  from T show ?thesis by simp
qed

subsection \<open>Resolving a query\<close>

text \<open>
  Claim C10. On a query that has not been resolved, \<open>Query_resolve\<close> returns one entry for
  every transaction among the transactions of the postings of the environment (the images
  of the postings under \<^verbatim>\<open>asTransaction\<close>, in order) that satisfies the predicate, and the
  entry is the first posting of that transaction. The list is stored in the query: every
  later \<open>Query_resolve\<close> returns the stored list and leaves the query as it is, for any
  environment, and it does not consult the predicate (the result is the same with any
  other predicate in its place).
\<close>

theorem resolve_first_postings_memoized:
  "(result q = None \<longrightarrow>
      fst (Query_resolve asTransaction q env) =
        map firstPosting (filter (predicate q) (map asTransaction (postings env))) \<and>
      length (fst (Query_resolve asTransaction q env)) =
        length (filter (predicate q) (map asTransaction (postings env)))) \<and>
   result (snd (Query_resolve asTransaction q env)) =
     Some (fst (Query_resolve asTransaction q env)) \<and>
   predicate (snd (Query_resolve asTransaction q env)) = predicate q \<and>
   (\<forall>env' p'.
      Query_resolve asTransaction (snd (Query_resolve asTransaction q env)\<lparr>predicate := p'\<rparr>) env'
        = (fst (Query_resolve asTransaction q env),
           snd (Query_resolve asTransaction q env)\<lparr>predicate := p'\<rparr>))"
proof (cases "result q")
  case None
  define r where "r = map firstPosting (filter (predicate q) (map asTransaction (postings env)))"
  have first: "Query_resolve asTransaction q env = (r, q\<lparr>result := Some r\<rparr>)"
    using None by (simp add: Query_resolve_def Let_def r_def)
  have later: "Query_resolve asTransaction (q\<lparr>result := Some r, predicate := p'\<rparr>) env' =
      (r, q\<lparr>result := Some r, predicate := p'\<rparr>)" for env' :: "('c, 'a) Environment" and p'
    by (simp add: Query_resolve_def)
  have len: "length r = length (filter (predicate q) (map asTransaction (postings env)))"
    by (simp add: r_def)
  show ?thesis
    unfolding first fst_conv snd_conv using len later by (simp add: r_def)
next
  case (Some r)
  have first: "Query_resolve asTransaction q env = (r, q)"
    using Some by (simp add: Query_resolve_def)
  have later: "Query_resolve asTransaction (q\<lparr>predicate := p'\<rparr>) env' = (r, q\<lparr>predicate := p'\<rparr>)"
    for env' :: "('c, 'a) Environment" and p'
    using Some by (simp add: Query_resolve_def)
  show ?thesis
    unfolding first fst_conv snd_conv using Some later by simp
qed

theorem resolve_first_postings_memoized_witness:
  "result evenQuery = None \<and>
   fst (Query_resolve singleTransaction evenQuery numbersEnvironment) = [Some 2, Some 4] \<and>
   fst (Query_resolve singleTransaction
         (snd (Query_resolve singleTransaction evenQuery numbersEnvironment)) otherEnvironment)
     = [Some 2, Some 4]"
proof -
  let ?q' = "snd (Query_resolve singleTransaction evenQuery numbersEnvironment)"
  have n: "result evenQuery = None" by (simp add: evenQuery_def newQuery_def)
  have p: "?q'\<lparr>predicate := predicate ?q'\<rparr> = ?q'" by simp
  note T = resolve_first_postings_memoized [of evenQuery singleTransaction numbersEnvironment]
  from T n have a: "fst (Query_resolve singleTransaction evenQuery numbersEnvironment) =
        map firstPosting (filter (predicate evenQuery)
          (map singleTransaction (postings numbersEnvironment)))"
    by blast
  from T have "Query_resolve singleTransaction (?q'\<lparr>predicate := predicate ?q'\<rparr>)
        otherEnvironment =
      (fst (Query_resolve singleTransaction evenQuery numbersEnvironment),
       ?q'\<lparr>predicate := predicate ?q'\<rparr>)"
    by blast
  then have b: "fst (Query_resolve singleTransaction ?q' otherEnvironment) =
      fst (Query_resolve singleTransaction evenQuery numbersEnvironment)"
    unfolding p by simp
  have c: "map firstPosting (filter (predicate evenQuery)
          (map singleTransaction (postings numbersEnvironment))) = [Some 2, Some 4]"
    by (simp add: evenQuery_def newQuery_def singleTransaction_def firstPosting_def
        numbersEnvironment_def)
  from n a b c show ?thesis by simp
qed

section \<open>Properties of the cash flow\<close>









lemma CostSum_month_filter:
  "CostSum (filter (\<lambda>p. month (Date p) = m) (filter c ps)) =
     CostSum (filter (\<lambda>p. month (Date p) = m \<and> c p) ps)"
  by (simp add: conj_commute)










subsection \<open>The current cash flow\<close>









end
